theory Spec2Isabelle
  imports Main
begin

section \<open>Request bodies, exceptions and responses\<close>

text \<open>
  The service of \<^verbatim>\<open>main.py\<close> is a set of Flask route handlers over two MySQL tables.
  A handler is modelled as a function from the request and the store to the response
  (or the exception that leaves the handler) and the store after the request.

  The values of a request body are the values that \<^verbatim>\<open>json.loads\<close> delivers. A number
  with a fraction or an exponent is a Python float: it is kept as its literal, since
  floating point is outside the model, and \<^verbatim>\<open>NaN\<close>, \<^verbatim>\<open>Infinity\<close> and \<^verbatim>\<open>-Infinity\<close>, which
  \<^verbatim>\<open>json.loads\<close> accepts, are values of their own. A parsed body is a JSON object, as a
  map from its keys to their values; bodies that parse to another kind of JSON value are
  not modelled.
\<close>

datatype json =
    JNull
  | JBool bool
  | JInt int
  | JFloat string
  | JNonFinite string
  | JStr string
  | JArr "json list"
  | JObj "(string \<times> json) list"

type_synonym json_object = "string \<rightharpoonup> json"

text \<open>
  What \<^verbatim>\<open>request.get_json\<close> finds: a request that does not carry JSON at all (no body,
  or another content type), a body that is not parseable as JSON, or a parsed object.
\<close>

datatype request_body = NoJson | Malformed | Parsed json_object

text \<open>
  What \<^verbatim>\<open>conn.execute\<close> raises. The store is MySQL behind the PyMySQL driver, which
  raises each error of the store in the class of its error number, with the message of
  the store (\<^verbatim>\<open>str(e.orig)\<close>): \<^verbatim>\<open>IntegrityError\<close> for a null in a \<^verbatim>\<open>NOT NULL\<close> column
  (1048), a duplicate key (1062) and a failed foreign key (1452); \<^verbatim>\<open>DataError\<close> for a
  value out of range (1264), an incorrect integer (1366) and a text too long (1406);
  \<^verbatim>\<open>OperationalError\<close> for every number it has no class for, among them the violated
  check constraint (3819). \<^verbatim>\<open>IntegrityError\<close> is the one class that the handlers catch by
  name. \<open>NotAnOperand\<close> stands for the exception on a parameter that is no SQL operand:
  the \<^verbatim>\<open>TypeError\<close> of the driver for an object, its \<^verbatim>\<open>ProgrammingError\<close> for \<^verbatim>\<open>NaN\<close>
  and \<^verbatim>\<open>Infinity\<close>, and the error of the store for the text that the driver sends for
  \<^verbatim>\<open>-Infinity\<close> and for an array that is not one operand in parentheses. None of them
  is an \<^verbatim>\<open>IntegrityError\<close>.
\<close>

datatype db_error =
    IntegrityError string
  | DataError string
  | OperationalError string
  | NotAnOperand

datatype exn =
    UnsupportedMediaType
  | BadRequest
  | KeyError string
  | ValueError
  | NoResultFound
  | MultipleResultsFound
  | ExecuteError db_error

text \<open>
  The links that \<^verbatim>\<open>url_for\<close> builds, by route and arguments: a business, a review,
  and the paginated list with its \<^verbatim>\<open>offset\<close> and \<^verbatim>\<open>limit\<close>.
\<close>

datatype link = BusinessLink int | ReviewLink int | BusinessesLink int int

record business_dict =
  bd_id :: int
  bd_owner_id :: int
  bd_name :: string
  bd_street_address :: string
  bd_city :: string
  bd_state :: string
  bd_zip_code :: int
  bd_self :: link

record review_dict =
  rd_id :: int
  rd_user_id :: int
  rd_business :: link
  rd_stars :: int
  rd_review_text :: string
  rd_self :: link

datatype body =
    ErrorBody string
  | EmptyBody
  | TextBody string
  | BusinessBody business_dict
  | ReviewBody review_dict
  | BusinessesBody "business_dict list"
  | ReviewsBody "review_dict list"
  | PageBody "business_dict list" "link option"

type_synonym response = "body \<times> nat"

section \<open>Parameters of a statement\<close>

text \<open>
  The driver renders each parameter of a statement as an SQL literal: \<^verbatim>\<open>None\<close> as
  \<^verbatim>\<open>NULL\<close>, a boolean as 0 or 1, an integer and a string as themselves, a float as a
  floating-point literal, and a list as its items in parentheses, which is the one item
  when there is one and no operand otherwise. It raises on an object and on a number
  that is not finite.
\<close>

datatype sql_value = SNull | SInt int | SFloat string | SStr string

fun operand :: "json \<Rightarrow> sql_value option" where
  "operand JNull = Some SNull"
| "operand (JBool b) = Some (SInt (if b then 1 else 0))"
| "operand (JInt i) = Some (SInt i)"
| "operand (JFloat lit) = Some (SFloat lit)"
| "operand (JNonFinite lit) = None"
| "operand (JStr t) = Some (SStr t)"
| "operand (JArr [x]) = operand x"
| "operand (JArr xs) = None"
| "operand (JObj kvs) = None"

definition bound :: "json \<Rightarrow> db_error + sql_value" where
  "bound v = (case operand v of None \<Rightarrow> Inl NotAnOperand | Some x \<Rightarrow> Inr x)"

text \<open>
  What the repository does not determine is a parameter of the model.
  \<open>cast_int\<close> is the integer stored when a string or a float is assigned to an \<^verbatim>\<open>INT\<close>
  column (\<open>None\<close>: the store rejects the value), \<open>compare_int\<close> is the integer that a
  string or a float equals in a comparison with an \<^verbatim>\<open>INT\<close> column (\<open>None\<close>: it equals no
  integer), \<open>float_text\<close> is the text stored when a float is assigned to a text column,
  and \<open>unicode_int\<close> is what Python's \<^verbatim>\<open>int\<close> reads in a text that has characters beyond
  ASCII (\<open>None\<close>: it raises).
\<close>

record conversion =
  cast_int :: "sql_value \<Rightarrow> int option"
  compare_int :: "sql_value \<Rightarrow> int option"
  float_text :: "string \<Rightarrow> string"
  unicode_int :: "string \<Rightarrow> int option"

section \<open>Constants and helper functions\<close>

text \<open>
  The required fields are Python sets; the list fixes one order of iteration. The
  handlers only test whether \<^verbatim>\<open>has_required_fields\<close> found a field.
\<close>

definition REQUIRED_BUSINESS_FIELDS :: "string list" where
  "REQUIRED_BUSINESS_FIELDS =
     [''owner_id'', ''name'', ''street_address'', ''city'', ''state'', ''zip_code'']"

definition REQUIRED_REVIEW_FIELDS :: "string list" where
  "REQUIRED_REVIEW_FIELDS = [''user_id'', ''business_id'', ''stars'']"

definition ERROR_BUSINESS_NOT_FOUND :: body where
  "ERROR_BUSINESS_NOT_FOUND = ErrorBody ''No business with this business_id exists''"

definition ERROR_REVIEW_NOT_FOUND :: body where
  "ERROR_REVIEW_NOT_FOUND = ErrorBody ''No review with this review_id exists''"

definition MISSING_ATTRIBUTES :: string where
  "MISSING_ATTRIBUTES =
     ''The request body is missing at least one of the required attributes''"

definition ALREADY_REVIEWED :: string where
  "ALREADY_REVIEWED =
     ''You have already submitted a review for this business. '' @
     ''You can update your previous review, or delete it and submit a new review''"

definition bad_request :: "string \<Rightarrow> nat \<Rightarrow> response" where
  "bad_request message status = (ErrorBody message, status)"

definition has_required_fields :: "json_object \<Rightarrow> string list \<Rightarrow> string option" where
  "has_required_fields data required_fields =
     find (\<lambda>field. data field = None) required_fields"

text \<open>\<^verbatim>\<open>if missing:\<close> tests the truth value of a field name or \<^verbatim>\<open>None\<close>.\<close>

definition truthy :: "string option \<Rightarrow> bool" where
  "truthy missing = (case missing of None \<Rightarrow> False | Some field \<Rightarrow> field \<noteq> [])"

text \<open>
  \<^verbatim>\<open>request.get_json()\<close> raises on a request without JSON (415) and on a body that
  does not parse (400); \<^verbatim>\<open>request.get_json(silent=True)\<close> returns \<^verbatim>\<open>None\<close> for both, and
  \<^verbatim>\<open>or {}\<close> turns \<^verbatim>\<open>None\<close> (and the empty object) into the empty object.
\<close>

fun get_json :: "request_body \<Rightarrow> exn + json_object" where
  "get_json NoJson = Inl UnsupportedMediaType"
| "get_json Malformed = Inl BadRequest"
| "get_json (Parsed content) = Inr content"

fun get_json_silent :: "request_body \<Rightarrow> json_object option" where
  "get_json_silent NoJson = None"
| "get_json_silent Malformed = None"
| "get_json_silent (Parsed content) = Some content"

definition or_empty :: "json_object option \<Rightarrow> json_object" where
  "or_empty parsed = (case parsed of None \<Rightarrow> Map.empty | Some content \<Rightarrow> content)"

definition getitem :: "json_object \<Rightarrow> string \<Rightarrow> exn + json" where
  "getitem content key = (case content key of None \<Rightarrow> Inl (KeyError key) | Some v \<Rightarrow> Inr v)"

definition and_then :: "'e + 'a \<Rightarrow> ('a \<Rightarrow> 'e + 'b) \<Rightarrow> 'e + 'b" where
  "and_then m f = (case m of Inl e \<Rightarrow> Inl e | Inr v \<Rightarrow> f v)"

subsection \<open>Strings: decimal numerals, lower case, substrings\<close>

definition digit_char :: "nat \<Rightarrow> char" where
  "digit_char d = ''0123456789'' ! d"

fun show_nat :: "nat \<Rightarrow> string" where
  "show_nat n = (if n < 10 then [digit_char n] else show_nat (n div 10) @ [digit_char (n mod 10)])"

declare show_nat.simps [simp del]

definition show_int :: "int \<Rightarrow> string" where
  "show_int i = (if i < 0 then CHR ''-'' # show_nat (nat (- i)) else show_nat (nat i))"

definition lower_char :: "char \<Rightarrow> char" where
  "lower_char c =
     (case map_of (zip ''ABCDEFGHIJKLMNOPQRSTUVWXYZ'' ''abcdefghijklmnopqrstuvwxyz'') c of
        None \<Rightarrow> c
      | Some l \<Rightarrow> l)"

definition lower :: "string \<Rightarrow> string" where
  "lower s = map lower_char s"

fun starts_with :: "string \<Rightarrow> string \<Rightarrow> bool" where
  "starts_with [] s = True"
| "starts_with (p # ps) [] = False"
| "starts_with (p # ps) (c # cs) = (p = c \<and> starts_with ps cs)"

text \<open>\<^verbatim>\<open>p in s\<close> on strings.\<close>

fun contains :: "string \<Rightarrow> string \<Rightarrow> bool" where
  "contains p [] = (p = [])"
| "contains p (c # cs) = (starts_with p (c # cs) \<or> contains p cs)"

definition quoted :: "string \<Rightarrow> string" where
  "quoted s = CHR 0x27 # s @ [CHR 0x27]"

subsection \<open>Python's \<^verbatim>\<open>int\<close> on a string\<close>

text \<open>
  On an ASCII text \<^verbatim>\<open>int(s)\<close> strips the white space of C, reads an optional sign and
  then decimal digits, which single underscores may separate; anything else raises
  \<^verbatim>\<open>ValueError\<close>. Strings are byte strings here: what \<^verbatim>\<open>int\<close> reads in a text with a
  byte beyond ASCII, where Python knows more digits and more white space, is the
  parameter \<open>unicode_int\<close>. The handlers apply \<^verbatim>\<open>int\<close> to the five characters of a zip
  code only.
\<close>

definition is_ascii :: "string \<Rightarrow> bool" where
  "is_ascii s = list_all (\<lambda>c. \<not> digit7 c) s"

definition is_digit :: "char \<Rightarrow> bool" where
  "is_digit c = (c \<in> set ''0123456789'')"

definition digit_value :: "char \<Rightarrow> nat" where
  "digit_value c =
     (case map_of (zip ''0123456789'' [0, 1, 2, 3, 4, 5, 6, 7, 8, 9]) c of
        None \<Rightarrow> 0
      | Some d \<Rightarrow> d)"

definition is_space :: "char \<Rightarrow> bool" where
  "is_space c = (c \<in> set [CHR 0x09, CHR 0x0A, CHR 0x0B, CHR 0x0C, CHR 0x0D, CHR 0x20])"

definition strip :: "string \<Rightarrow> string" where
  "strip s = rev (dropWhile is_space (rev (dropWhile is_space s)))"

fun digits_from :: "nat \<Rightarrow> string \<Rightarrow> nat option" where
  "digits_from acc [] = Some acc"
| "digits_from acc [c] = (if is_digit c then Some (10 * acc + digit_value c) else None)"
| "digits_from acc (c # d # cs) =
     (if is_digit c then digits_from (10 * acc + digit_value c) (d # cs)
      else if c = CHR ''_'' \<and> is_digit d then digits_from (10 * acc + digit_value d) cs
      else None)"

definition unsigned_digits :: "string \<Rightarrow> nat option" where
  "unsigned_digits s =
     (case s of [] \<Rightarrow> None
      | c # cs \<Rightarrow> if is_digit c then digits_from (digit_value c) cs else None)"

definition ascii_int :: "string \<Rightarrow> int option" where
  "ascii_int s =
     (case strip s of
        [] \<Rightarrow> None
      | c # cs \<Rightarrow>
          (case (if c = CHR ''-'' \<or> c = CHR ''+'' then unsigned_digits cs
                 else unsigned_digits (c # cs)) of
             None \<Rightarrow> None
           | Some n \<Rightarrow> Some (if c = CHR ''-'' then - int n else int n)))"

definition py_int :: "conversion \<Rightarrow> string \<Rightarrow> exn + int" where
  "py_int cv s =
     (case (if is_ascii s then ascii_int s else unicode_int cv s) of
        None \<Rightarrow> Inl ValueError
      | Some i \<Rightarrow> Inr i)"

section \<open>The store\<close>

text \<open>
  The two tables that \<^verbatim>\<open>create_tables\<close> declares, each as the list of its rows, and
  the \<^verbatim>\<open>AUTO_INCREMENT\<close> counter of each table. The statements below are the SQL
  statements of the handlers, read with the constraints of the schema:
  \<^item> \<^verbatim>\<open>PRIMARY KEY\<close> on \<^verbatim>\<open>business_id\<close> and on \<^verbatim>\<open>review_id\<close>;
  \<^item> \<^verbatim>\<open>NOT NULL\<close> on every column, \<^verbatim>\<open>INT\<close> columns of 32 bits, text columns of the
    declared length;
  \<^item> \<^verbatim>\<open>fk_reviews_business\<close>: \<^verbatim>\<open>reviews.business_id\<close> references a business,
    \<^verbatim>\<open>ON DELETE CASCADE\<close>;
  \<^item> \<^verbatim>\<open>uq_user_business\<close>: \<^verbatim>\<open>UNIQUE (user_id, business_id)\<close> on reviews;
  \<^item> \<^verbatim>\<open>ck_stars\<close>: \<^verbatim>\<open>CHECK (stars BETWEEN 0 AND 5)\<close>.
\<close>

record business_row =
  business_id :: int
  owner_id :: int
  name :: string
  street_address :: string
  city :: string
  state :: string
  zip_code :: string

record review_row =
  review_id :: int
  user_id :: int
  review_business_id :: int
  stars :: int
  review_text :: string

record store =
  businesses :: "business_row list"
  reviews :: "review_row list"
  businesses_auto_increment :: int
  reviews_auto_increment :: int

definition INT_MIN :: int where
  "INT_MIN = - 2147483648"

definition INT_MAX :: int where
  "INT_MAX = 2147483647"

subsection \<open>Values of columns\<close>

text \<open>
  The value a column takes from an operand, or the error of the store: null in a
  \<^verbatim>\<open>NOT NULL\<close> column is an integrity error; an integer outside the 32 bits of \<^verbatim>\<open>INT\<close>,
  a string or a float that the store does not take for an integer and a text longer than
  the column are data errors (the store runs in its default strict mode). Trailing spaces
  beyond the length of a text column are cut off without an error.
\<close>

definition cannot_be_null :: "string \<Rightarrow> db_error" where
  "cannot_be_null col = IntegrityError (''Column '' @ quoted col @ '' cannot be null'')"

definition int_value :: "string \<Rightarrow> int \<Rightarrow> db_error + int" where
  "int_value col i =
     (if INT_MIN \<le> i \<and> i \<le> INT_MAX then Inr i
      else Inl (DataError (''Out of range value for column '' @ quoted col @ '' at row 1'')))"

definition incorrect_integer :: "string \<Rightarrow> db_error" where
  "incorrect_integer col =
     DataError (''Incorrect integer value for column '' @ quoted col @ '' at row 1'')"

fun int_column :: "conversion \<Rightarrow> string \<Rightarrow> sql_value \<Rightarrow> db_error + int" where
  "int_column cv col SNull = Inl (cannot_be_null col)"
| "int_column cv col (SInt i) = int_value col i"
| "int_column cv col x =
     (case cast_int cv x of
        None \<Rightarrow> Inl (incorrect_integer col)
      | Some i \<Rightarrow> int_value col i)"

definition text_value :: "nat \<Rightarrow> string \<Rightarrow> string \<Rightarrow> db_error + string" where
  "text_value n col t =
     (if length t \<le> n then Inr t
      else if list_all (\<lambda>c. c = CHR '' '') (drop n t) then Inr (take n t)
      else Inl (DataError (''Data too long for column '' @ quoted col @ '' at row 1'')))"

text \<open>\<^verbatim>\<open>VARCHAR(n)\<close>: an integer is stored as its decimal numeral.\<close>

fun varchar_column :: "conversion \<Rightarrow> nat \<Rightarrow> string \<Rightarrow> sql_value \<Rightarrow> db_error + string" where
  "varchar_column cv n col SNull = Inl (cannot_be_null col)"
| "varchar_column cv n col (SInt i) = text_value n col (show_int i)"
| "varchar_column cv n col (SFloat lit) = text_value n col (float_text cv lit)"
| "varchar_column cv n col (SStr t) = text_value n col t"

text \<open>\<^verbatim>\<open>CHAR(n)\<close>: as \<^verbatim>\<open>VARCHAR(n)\<close>, read back without its trailing spaces.\<close>

definition rstrip_spaces :: "string \<Rightarrow> string" where
  "rstrip_spaces t = rev (dropWhile (\<lambda>c. c = CHR '' '') (rev t))"

definition char_column :: "conversion \<Rightarrow> nat \<Rightarrow> string \<Rightarrow> sql_value \<Rightarrow> db_error + string" where
  "char_column cv n col x =
     and_then (varchar_column cv n col x) (\<lambda>t. Inr (rstrip_spaces t))"

text \<open>The text that a \<^verbatim>\<open>VARCHAR(n)\<close> column stores for a value of the body.\<close>

definition varchar_param :: "conversion \<Rightarrow> nat \<Rightarrow> string \<Rightarrow> json \<Rightarrow> db_error + string" where
  "varchar_param cv n col v = and_then (bound v) (varchar_column cv n col)"

text \<open>
  The integer an operand equals in \<^verbatim>\<open>WHERE business_id = :bid\<close>; null equals nothing.
\<close>

fun compare_value :: "conversion \<Rightarrow> sql_value \<Rightarrow> int option" where
  "compare_value cv SNull = None"
| "compare_value cv (SInt i) = Some i"
| "compare_value cv x = compare_int cv x"

definition ck_stars :: "int \<Rightarrow> bool" where
  "ck_stars n = (0 \<le> n \<and> n \<le> 5)"

text \<open>
  The store reports a violated check constraint with its error 3819, for which the
  driver has no class of its own: it arrives as an \<^verbatim>\<open>OperationalError\<close>.
\<close>

definition ck_stars_violated :: db_error where
  "ck_stars_violated =
     OperationalError (''Check constraint '' @ quoted ''ck_stars'' @ '' is violated.'')"

definition duplicate_entry :: "string \<Rightarrow> string \<Rightarrow> db_error" where
  "duplicate_entry entry key =
     IntegrityError (''Duplicate entry '' @ quoted entry @ '' for key '' @ quoted key)"

definition foreign_key_fails :: db_error where
  "foreign_key_fails =
     IntegrityError (''Cannot add or update a child row: a foreign key constraint fails '' @
       ''(`reviews`, CONSTRAINT `fk_reviews_business` FOREIGN KEY (`business_id`) '' @
       ''REFERENCES `businesses` (`business_id`) ON DELETE CASCADE)'')"

text \<open>
  The counter of an \<^verbatim>\<open>INT AUTO_INCREMENT\<close> column stops at the largest value of the
  column.
\<close>

definition auto_increment :: "int \<Rightarrow> int" where
  "auto_increment c = min (c + 1) INT_MAX"

subsection \<open>Results of a query\<close>

definition one_or_none :: "'a list \<Rightarrow> exn + 'a option" where
  "one_or_none rows =
     (case rows of [] \<Rightarrow> Inr None | [r] \<Rightarrow> Inr (Some r) | _ \<Rightarrow> Inl MultipleResultsFound)"

definition one :: "'a list \<Rightarrow> exn + 'a" where
  "one rows =
     (case rows of [] \<Rightarrow> Inl NoResultFound | [r] \<Rightarrow> Inr r | _ \<Rightarrow> Inl MultipleResultsFound)"

subsection \<open>Statements on businesses\<close>

text \<open>
  A statement is rendered with all its parameters before the store sees it: a parameter
  that is no operand fails the statement whatever the rows are.
\<close>

text \<open>\<^verbatim>\<open>SELECT ... FROM businesses WHERE business_id = :id\<close>, for an integer.\<close>

definition select_business :: "int \<Rightarrow> store \<Rightarrow> business_row list" where
  "select_business b s = filter (\<lambda>r. business_id r = b) (businesses s)"

text \<open>\<^verbatim>\<open>SELECT business_id FROM businesses WHERE business_id = :bid\<close>, for a value of the body.\<close>

definition select_business_where ::
  "conversion \<Rightarrow> json \<Rightarrow> store \<Rightarrow> db_error + business_row list"
where
  "select_business_where cv bid s =
     and_then (bound bid) (\<lambda>x.
       Inr (case compare_value cv x of None \<Rightarrow> [] | Some b \<Rightarrow> select_business b s))"

text \<open>\<^verbatim>\<open>SELECT ... FROM businesses ORDER BY business_id LIMIT :limit OFFSET :offset\<close>.\<close>

definition select_businesses_page :: "int \<Rightarrow> int \<Rightarrow> store \<Rightarrow> business_row list" where
  "select_businesses_page fetch_limit offset s =
     take (nat fetch_limit) (drop (nat offset) (sort_key business_id (businesses s)))"

text \<open>\<^verbatim>\<open>SELECT ... FROM businesses WHERE owner_id = :owner_id ORDER BY business_id\<close>.\<close>

definition select_businesses_of_owner :: "int \<Rightarrow> store \<Rightarrow> business_row list" where
  "select_businesses_of_owner ow s =
     sort_key business_id (filter (\<lambda>r. owner_id r = ow) (businesses s))"

text \<open>The six parameters of a business, rendered in the order of the statement.\<close>

definition business_operands ::
  "json \<Rightarrow> json \<Rightarrow> json \<Rightarrow> json \<Rightarrow> json \<Rightarrow> json \<Rightarrow>
   db_error + sql_value \<times> sql_value \<times> sql_value \<times> sql_value \<times> sql_value \<times> sql_value"
where
  "business_operands ov nv av tv sv zv =
     and_then (bound ov) (\<lambda>ow.
     and_then (bound nv) (\<lambda>nm.
     and_then (bound av) (\<lambda>ad.
     and_then (bound tv) (\<lambda>ct.
     and_then (bound sv) (\<lambda>st.
     and_then (bound zv) (\<lambda>zp. Inr (ow, nm, ad, ct, st, zp)))))))"

text \<open>The columns of a business row from the operands, in the order of the statement.\<close>

definition business_columns ::
  "conversion \<Rightarrow> int \<Rightarrow>
   sql_value \<times> sql_value \<times> sql_value \<times> sql_value \<times> sql_value \<times> sql_value \<Rightarrow>
   db_error + business_row"
where
  "business_columns cv b ops =
     (case ops of (ov, nv, av, tv, sv, zv) \<Rightarrow>
        and_then (int_column cv ''owner_id'' ov) (\<lambda>ow.
        and_then (varchar_column cv 50 ''name'' nv) (\<lambda>nm.
        and_then (varchar_column cv 100 ''street_address'' av) (\<lambda>ad.
        and_then (varchar_column cv 50 ''city'' tv) (\<lambda>ct.
        and_then (char_column cv 2 ''state'' sv) (\<lambda>st.
        and_then (char_column cv 5 ''zip_code'' zv) (\<lambda>zp.
          Inr \<lparr>business_id = b, owner_id = ow, name = nm, street_address = ad,
               city = ct, state = st, zip_code = zp\<rparr>)))))))"

text \<open>
  \<^verbatim>\<open>INSERT INTO businesses (owner_id, name, street_address, city, state, zip_code)\<close>:
  the new row takes the value of the counter as its id, which
  \<^verbatim>\<open>SELECT LAST_INSERT_ID()\<close> then returns.
\<close>

definition insert_business ::
  "conversion \<Rightarrow> json \<Rightarrow> json \<Rightarrow> json \<Rightarrow> json \<Rightarrow> json \<Rightarrow> json \<Rightarrow> store \<Rightarrow> (db_error + int) \<times> store"
where
  "insert_business cv ov nv av tv sv zv s =
     (let new_id = businesses_auto_increment s in
      case and_then (business_operands ov nv av tv sv zv) (business_columns cv new_id) of
        Inl e \<Rightarrow> (Inl e, s)
      | Inr row \<Rightarrow>
          if new_id \<in> set (map business_id (businesses s))
          then (Inl (duplicate_entry (show_int new_id) ''businesses.PRIMARY''),
                s\<lparr>businesses_auto_increment := auto_increment new_id\<rparr>)
          else (Inr new_id,
                s\<lparr>businesses := businesses s @ [row],
                  businesses_auto_increment := auto_increment new_id\<rparr>))"

text \<open>
  \<^verbatim>\<open>UPDATE businesses SET owner_id=..., ..., zip_code=... WHERE business_id=:id\<close>.
\<close>

definition update_business ::
  "conversion \<Rightarrow> json \<Rightarrow> json \<Rightarrow> json \<Rightarrow> json \<Rightarrow> json \<Rightarrow> json \<Rightarrow> int \<Rightarrow> store \<Rightarrow> db_error + store"
where
  "update_business cv ov nv av tv sv zv b s =
     and_then (business_operands ov nv av tv sv zv) (\<lambda>ops.
       if select_business b s = [] then Inr s
       else
         and_then (business_columns cv b ops) (\<lambda>row.
           Inr (s\<lparr>businesses :=
                  map (\<lambda>r. if business_id r = b then row else r) (businesses s)\<rparr>)))"

text \<open>
  \<^verbatim>\<open>DELETE FROM businesses WHERE business_id = :id\<close>, with the number of rows deleted
  (\<^verbatim>\<open>result.rowcount\<close>). \<^verbatim>\<open>ON DELETE CASCADE\<close> deletes the reviews of a deleted business.
\<close>

definition delete_from_businesses :: "int \<Rightarrow> store \<Rightarrow> nat \<times> store" where
  "delete_from_businesses b s =
     (let rowcount = length (select_business b s) in
      (rowcount,
       s\<lparr>businesses := filter (\<lambda>r. business_id r \<noteq> b) (businesses s),
         reviews := (if rowcount = 0 then reviews s
                     else filter (\<lambda>r. review_business_id r \<noteq> b) (reviews s))\<rparr>))"

subsection \<open>Statements on reviews\<close>

text \<open>\<^verbatim>\<open>SELECT ... FROM reviews WHERE review_id = :id\<close>.\<close>

definition select_review :: "int \<Rightarrow> store \<Rightarrow> review_row list" where
  "select_review r s = filter (\<lambda>row. review_id row = r) (reviews s)"

text \<open>\<^verbatim>\<open>SELECT ... FROM reviews WHERE user_id = :uid ORDER BY review_id\<close>.\<close>

definition select_reviews_of_user :: "int \<Rightarrow> store \<Rightarrow> review_row list" where
  "select_reviews_of_user u s =
     sort_key review_id (filter (\<lambda>row. user_id row = u) (reviews s))"

definition review_operands ::
  "json \<Rightarrow> json \<Rightarrow> json \<Rightarrow> json \<Rightarrow> db_error + sql_value \<times> sql_value \<times> sql_value \<times> sql_value"
where
  "review_operands uv bv sv tv =
     and_then (bound uv) (\<lambda>u.
     and_then (bound bv) (\<lambda>b.
     and_then (bound sv) (\<lambda>n.
     and_then (bound tv) (\<lambda>t. Inr (u, b, n, t)))))"

definition review_columns ::
  "conversion \<Rightarrow> int \<Rightarrow> sql_value \<times> sql_value \<times> sql_value \<times> sql_value \<Rightarrow>
   db_error + review_row"
where
  "review_columns cv r ops =
     (case ops of (uv, bv, sv, tv) \<Rightarrow>
        and_then (int_column cv ''user_id'' uv) (\<lambda>u.
        and_then (int_column cv ''business_id'' bv) (\<lambda>b.
        and_then (int_column cv ''stars'' sv) (\<lambda>n.
        and_then (varchar_column cv 1000 ''review_text'' tv) (\<lambda>t.
          Inr \<lparr>review_id = r, user_id = u, review_business_id = b, stars = n,
               review_text = t\<rparr>)))))"

text \<open>
  \<^verbatim>\<open>INSERT INTO reviews (user_id, business_id, stars, review_text)\<close>. The store
  converts the values, then checks \<^verbatim>\<open>ck_stars\<close>, and only then writes the row, where
  the keys and the foreign key are checked. The counter advances as soon as the write
  begins, also when a key then rejects the row.
\<close>

definition insert_review ::
  "conversion \<Rightarrow> json \<Rightarrow> json \<Rightarrow> json \<Rightarrow> json \<Rightarrow> store \<Rightarrow> (db_error + int) \<times> store"
where
  "insert_review cv uv bv sv tv s =
     (let new_id = reviews_auto_increment s in
      case and_then (review_operands uv bv sv tv) (review_columns cv new_id) of
        Inl e \<Rightarrow> (Inl e, s)
      | Inr row \<Rightarrow>
          if \<not> ck_stars (stars row) then (Inl ck_stars_violated, s)
          else
            let s1 = s\<lparr>reviews_auto_increment := auto_increment new_id\<rparr> in
            if new_id \<in> set (map review_id (reviews s))
            then (Inl (duplicate_entry (show_int new_id) ''reviews.PRIMARY''), s1)
            else if (user_id row, review_business_id row)
                      \<in> set (map (\<lambda>r. (user_id r, review_business_id r)) (reviews s))
            then (Inl (duplicate_entry
                         (show_int (user_id row) @ ''-'' @ show_int (review_business_id row))
                         ''reviews.uq_user_business''), s1)
            else if review_business_id row \<notin> set (map business_id (businesses s))
            then (Inl foreign_key_fails, s1)
            else (Inr new_id, s1\<lparr>reviews := reviews s @ [row]\<rparr>))"

text \<open>\<^verbatim>\<open>UPDATE reviews SET stars = :stars WHERE review_id = :id\<close>.\<close>

definition update_review_stars :: "conversion \<Rightarrow> json \<Rightarrow> int \<Rightarrow> store \<Rightarrow> db_error + store" where
  "update_review_stars cv sv r s =
     and_then (bound sv) (\<lambda>x.
       if select_review r s = [] then Inr s
       else
         and_then (int_column cv ''stars'' x) (\<lambda>n.
           if \<not> ck_stars n then Inl ck_stars_violated
           else Inr (s\<lparr>reviews :=
                  map (\<lambda>row. if review_id row = r then row\<lparr>stars := n\<rparr> else row)
                    (reviews s)\<rparr>)))"

text \<open>
  \<^verbatim>\<open>UPDATE reviews SET stars = :stars, review_text = :review_text WHERE review_id = :id\<close>.
\<close>

definition update_review_stars_text ::
  "conversion \<Rightarrow> json \<Rightarrow> json \<Rightarrow> int \<Rightarrow> store \<Rightarrow> db_error + store"
where
  "update_review_stars_text cv sv tv r s =
     and_then (bound sv) (\<lambda>x.
     and_then (bound tv) (\<lambda>y.
       if select_review r s = [] then Inr s
       else
         and_then (int_column cv ''stars'' x) (\<lambda>n.
         and_then (varchar_column cv 1000 ''review_text'' y) (\<lambda>t.
           if \<not> ck_stars n then Inl ck_stars_violated
           else Inr (s\<lparr>reviews :=
                  map (\<lambda>row. if review_id row = r
                             then row\<lparr>stars := n, review_text := t\<rparr> else row)
                    (reviews s)\<rparr>)))))"

text \<open>\<^verbatim>\<open>DELETE FROM reviews WHERE review_id = :id\<close>, with the number of rows deleted.\<close>

definition delete_from_reviews :: "int \<Rightarrow> store \<Rightarrow> nat \<times> store" where
  "delete_from_reviews r s =
     (length (select_review r s),
      s\<lparr>reviews := filter (\<lambda>row. review_id row \<noteq> r) (reviews s)\<rparr>)"

section \<open>Row mappers\<close>

text \<open>
  \<^verbatim>\<open>row_to_business_dict\<close> reads the zip code with \<^verbatim>\<open>int\<close>, which raises on a text
  that is no numeral.
\<close>

definition row_to_business_dict :: "conversion \<Rightarrow> business_row \<Rightarrow> exn + business_dict" where
  "row_to_business_dict cv row =
     (case py_int cv (zip_code row) of
        Inl e \<Rightarrow> Inl e
      | Inr z \<Rightarrow>
          Inr \<lparr>bd_id = business_id row, bd_owner_id = owner_id row, bd_name = name row,
               bd_street_address = street_address row, bd_city = city row,
               bd_state = state row, bd_zip_code = z,
               bd_self = BusinessLink (business_id row)\<rparr>)"

text \<open>
  \<^verbatim>\<open>review_text\<close> is a \<^verbatim>\<open>NOT NULL\<close> column, so the mapper's test for \<^verbatim>\<open>None\<close> never
  fires and the text of the row is the text of the representation.
\<close>

definition row_to_review_dict :: "review_row \<Rightarrow> review_dict" where
  "row_to_review_dict row =
     \<lparr>rd_id = review_id row, rd_user_id = user_id row,
      rd_business = BusinessLink (review_business_id row), rd_stars = stars row,
      rd_review_text = review_text row, rd_self = ReviewLink (review_id row)\<rparr>"

text \<open>A list comprehension over a mapper that may raise.\<close>

fun map_rows :: "('a \<Rightarrow> exn + 'b) \<Rightarrow> 'a list \<Rightarrow> exn + 'b list" where
  "map_rows f [] = Inr []"
| "map_rows f (r # rs) =
     (case f r of
        Inl e \<Rightarrow> Inl e
      | Inr d \<Rightarrow> (case map_rows f rs of Inl e \<Rightarrow> Inl e | Inr ds \<Rightarrow> Inr (d # ds)))"

text \<open>The slice \<^verbatim>\<open>rows[:k]\<close>: a negative \<open>k\<close> counts from the end of the list.\<close>

definition slice_to :: "int \<Rightarrow> 'a list \<Rightarrow> 'a list" where
  "slice_to k rows =
     (if k < 0 then take (nat (int (length rows) + k)) rows else take (nat k) rows)"

definition get_default :: "json_object \<Rightarrow> string \<Rightarrow> json \<Rightarrow> json" where
  "get_default content key d = (case content key of None \<Rightarrow> d | Some v \<Rightarrow> v)"

section \<open>Businesses endpoints\<close>

definition index :: response where
  "index = (TextBody ''Please access either the /businesses or /reviews endpoint.'', 200)"

text \<open>The \<^verbatim>\<open>try\<close> block of \<^verbatim>\<open>post_business\<close>: the row it fetches, or the exception.\<close>

definition post_business_try ::
  "conversion \<Rightarrow> json_object \<Rightarrow> store \<Rightarrow> (exn + business_row) \<times> store"
where
  "post_business_try cv content s =
     (case and_then (getitem content ''owner_id'') (\<lambda>ov.
           and_then (getitem content ''name'') (\<lambda>nv.
           and_then (getitem content ''street_address'') (\<lambda>av.
           and_then (getitem content ''city'') (\<lambda>tv.
           and_then (getitem content ''state'') (\<lambda>sv.
           and_then (getitem content ''zip_code'') (\<lambda>zv.
             Inr (insert_business cv ov nv av tv sv zv s))))))) of
        Inl e \<Rightarrow> (Inl e, s)
      | Inr (Inl e, s') \<Rightarrow> (Inl (ExecuteError e), s')
      | Inr (Inr new_id, s') \<Rightarrow>
          (case one (select_business new_id s') of
             Inl e \<Rightarrow> (Inl e, s')
           | Inr row \<Rightarrow> (Inr row, s')))"

definition post_business :: "conversion \<Rightarrow> request_body \<Rightarrow> store \<Rightarrow> (exn + response) \<times> store" where
  "post_business cv rb s =
     (case get_json rb of
        Inl e \<Rightarrow> (Inl e, s)
      | Inr content \<Rightarrow>
          if truthy (has_required_fields content REQUIRED_BUSINESS_FIELDS)
          then (Inr (bad_request MISSING_ATTRIBUTES 400), s)
          else
            (case post_business_try cv content s of
               (Inl e, s') \<Rightarrow> (Inr (ErrorBody ''Unable to create business'', 500), s')
             | (Inr row, s') \<Rightarrow>
                 (case row_to_business_dict cv row of
                    Inl e \<Rightarrow> (Inl e, s')
                  | Inr d \<Rightarrow> (Inr (BusinessBody d, 201), s'))))"

text \<open>
  \<^verbatim>\<open>request.args.get('limit', type=int)\<close> is \<^verbatim>\<open>None\<close> for a parameter that is absent or
  is no integer; the handler takes the two query parameters after that conversion.
\<close>

definition get_businesses ::
  "conversion \<Rightarrow> int option \<Rightarrow> int option \<Rightarrow> store \<Rightarrow> exn + response"
where
  "get_businesses cv limit_arg offset_arg s =
     (let (limit, offset0) =
            (case (limit_arg, offset_arg) of
               (Some l, Some off) \<Rightarrow> (l, off)
             | _ \<Rightarrow> (3, 0));
          fetch_limit = max 0 limit + 1;
          offset = max 0 offset0;
          rows = select_businesses_page fetch_limit offset s
      in case map_rows (row_to_business_dict cv) (slice_to limit rows) of
           Inl e \<Rightarrow> Inl e
         | Inr entries \<Rightarrow>
             Inr (PageBody entries
                    (if int (length rows) > limit
                     then Some (BusinessesLink (offset + limit) limit) else None),
                  200))"

definition get_business_by_id :: "conversion \<Rightarrow> int \<Rightarrow> store \<Rightarrow> exn + response" where
  "get_business_by_id cv b s =
     (case one_or_none (select_business b s) of
        Inl e \<Rightarrow> Inl e
      | Inr None \<Rightarrow> Inr (ERROR_BUSINESS_NOT_FOUND, 404)
      | Inr (Some row) \<Rightarrow>
          (case row_to_business_dict cv row of
             Inl e \<Rightarrow> Inl e
           | Inr d \<Rightarrow> Inr (BusinessBody d, 200)))"

definition list_businesses_for_owner :: "conversion \<Rightarrow> int \<Rightarrow> store \<Rightarrow> exn + response" where
  "list_businesses_for_owner cv ow s =
     (case map_rows (row_to_business_dict cv) (select_businesses_of_owner ow s) of
        Inl e \<Rightarrow> Inl e
      | Inr ds \<Rightarrow> Inr (BusinessesBody ds, 200))"

definition edit_business ::
  "conversion \<Rightarrow> int \<Rightarrow> request_body \<Rightarrow> store \<Rightarrow> (exn + response) \<times> store"
where
  "edit_business cv b rb s =
     (case get_json rb of
        Inl e \<Rightarrow> (Inl e, s)
      | Inr content \<Rightarrow>
          if truthy (has_required_fields content REQUIRED_BUSINESS_FIELDS)
          then (Inr (bad_request MISSING_ATTRIBUTES 400), s)
          else
            (case one_or_none (select_business b s) of
               Inl e \<Rightarrow> (Inl e, s)
             | Inr None \<Rightarrow> (Inr (ERROR_BUSINESS_NOT_FOUND, 404), s)
             | Inr (Some existing) \<Rightarrow>
                 (case and_then (getitem content ''owner_id'') (\<lambda>ov.
                       and_then (getitem content ''name'') (\<lambda>nv.
                       and_then (getitem content ''street_address'') (\<lambda>av.
                       and_then (getitem content ''city'') (\<lambda>tv.
                       and_then (getitem content ''state'') (\<lambda>sv.
                       and_then (getitem content ''zip_code'') (\<lambda>zv.
                         Inr (update_business cv ov nv av tv sv zv b s))))))) of
                    Inl e \<Rightarrow> (Inl e, s)
                  | Inr (Inl e) \<Rightarrow> (Inl (ExecuteError e), s)
                  | Inr (Inr s') \<Rightarrow>
                      (case one (select_business b s') of
                         Inl e \<Rightarrow> (Inl e, s')
                       | Inr row \<Rightarrow>
                           (case row_to_business_dict cv row of
                              Inl e \<Rightarrow> (Inl e, s')
                            | Inr d \<Rightarrow> (Inr (BusinessBody d, 200), s'))))))"

definition delete_business :: "int \<Rightarrow> store \<Rightarrow> (exn + response) \<times> store" where
  "delete_business b s =
     (case delete_from_businesses b s of
        (rowcount, s') \<Rightarrow>
          if rowcount = 0 then (Inr (ERROR_BUSINESS_NOT_FOUND, 404), s')
          else (Inr (EmptyBody, 204), s'))"

section \<open>Reviews endpoints\<close>

text \<open>
  The \<^verbatim>\<open>try\<close> block of \<^verbatim>\<open>post_reviews\<close>: the exception it raises, the response it
  returns from inside the block, or the row it fetches.
\<close>

definition post_reviews_try ::
  "conversion \<Rightarrow> json_object \<Rightarrow> store \<Rightarrow> (exn + (response + review_row)) \<times> store"
where
  "post_reviews_try cv content s =
     (case and_then (getitem content ''business_id'') (\<lambda>bid.
           (case select_business_where cv bid s of
              Inl e \<Rightarrow> Inl (ExecuteError e)
            | Inr rows \<Rightarrow> one_or_none rows)) of
        Inl e \<Rightarrow> (Inl e, s)
      | Inr None \<Rightarrow> (Inr (Inl (ERROR_BUSINESS_NOT_FOUND, 404)), s)
      | Inr (Some b) \<Rightarrow>
          (case and_then (getitem content ''user_id'') (\<lambda>uv.
                and_then (getitem content ''business_id'') (\<lambda>bv.
                and_then (getitem content ''stars'') (\<lambda>sv.
                  Inr (insert_review cv uv bv sv
                         (get_default content ''review_text'' (JStr [])) s)))) of
             Inl e \<Rightarrow> (Inl e, s)
           | Inr (Inl e, s') \<Rightarrow> (Inl (ExecuteError e), s')
           | Inr (Inr new_id, s') \<Rightarrow>
               (case one (select_review new_id s') of
                  Inl e \<Rightarrow> (Inl e, s')
                | Inr row \<Rightarrow> (Inr (Inr row), s'))))"

text \<open>The \<^verbatim>\<open>except\<close> clauses of \<^verbatim>\<open>post_reviews\<close>.\<close>

fun post_reviews_except :: "exn \<Rightarrow> response" where
  "post_reviews_except (ExecuteError (IntegrityError m)) =
     (let msg = lower m in
      if contains ''uq_user_business'' msg \<or> contains ''duplicate'' msg \<or> contains ''unique'' msg
      then bad_request ALREADY_REVIEWED 409
      else bad_request ''Invalid review data'' 400)"
| "post_reviews_except e = (ErrorBody ''Unable to create review'', 500)"

definition post_reviews :: "conversion \<Rightarrow> request_body \<Rightarrow> store \<Rightarrow> (exn + response) \<times> store" where
  "post_reviews cv rb s =
     (case get_json rb of
        Inl e \<Rightarrow> (Inl e, s)
      | Inr content \<Rightarrow>
          if truthy (has_required_fields content REQUIRED_REVIEW_FIELDS)
          then (Inr (bad_request MISSING_ATTRIBUTES 400), s)
          else
            (case post_reviews_try cv content s of
               (Inl e, s') \<Rightarrow> (Inr (post_reviews_except e), s')
             | (Inr (Inl returned), s') \<Rightarrow> (Inr returned, s')
             | (Inr (Inr row), s') \<Rightarrow> (Inr (ReviewBody (row_to_review_dict row), 201), s')))"

definition get_review_by_id :: "int \<Rightarrow> store \<Rightarrow> exn + response" where
  "get_review_by_id r s =
     (case one_or_none (select_review r s) of
        Inl e \<Rightarrow> Inl e
      | Inr None \<Rightarrow> Inr (ERROR_REVIEW_NOT_FOUND, 404)
      | Inr (Some row) \<Rightarrow> Inr (ReviewBody (row_to_review_dict row), 200))"

definition list_reviews_for_user :: "int \<Rightarrow> store \<Rightarrow> exn + response" where
  "list_reviews_for_user u s =
     Inr (ReviewsBody (map row_to_review_dict (select_reviews_of_user u s)), 200)"

text \<open>
  The \<^verbatim>\<open>except IntegrityError\<close> clause of \<^verbatim>\<open>edit_review\<close>; any other exception of the
  \<^verbatim>\<open>UPDATE\<close> leaves the handler.
\<close>

fun edit_review_except :: "db_error \<Rightarrow> exn + response" where
  "edit_review_except (IntegrityError m) = Inr (bad_request ''Invalid review data'' 400)"
| "edit_review_except e = Inl (ExecuteError e)"

definition edit_review ::
  "conversion \<Rightarrow> int \<Rightarrow> request_body \<Rightarrow> store \<Rightarrow> (exn + response) \<times> store"
where
  "edit_review cv r rb s =
     (let content = or_empty (get_json_silent rb) in
      case content ''stars'' of
        None \<Rightarrow> (Inr (bad_request MISSING_ATTRIBUTES 400), s)
      | Some sv \<Rightarrow>
          (case one_or_none (select_review r s) of
             Inl e \<Rightarrow> (Inl e, s)
           | Inr None \<Rightarrow> (Inr (ERROR_REVIEW_NOT_FOUND, 404), s)
           | Inr (Some existing) \<Rightarrow>
               (case (case content ''review_text'' of
                        Some tv \<Rightarrow> update_review_stars_text cv sv tv r s
                      | None \<Rightarrow> update_review_stars cv sv r s) of
                  Inl e \<Rightarrow> (edit_review_except e, s)
                | Inr s' \<Rightarrow>
                    (case one (select_review r s') of
                       Inl e \<Rightarrow> (Inl e, s')
                     | Inr row \<Rightarrow> (Inr (ReviewBody (row_to_review_dict row), 200), s')))))"

definition delete_review :: "int \<Rightarrow> store \<Rightarrow> (exn + response) \<times> store" where
  "delete_review r s =
     (case delete_from_reviews r s of
        (rowcount, s') \<Rightarrow>
          if rowcount = 0 then (Inr (ERROR_REVIEW_NOT_FOUND, 404), s')
          else (Inr (EmptyBody, 204), s'))"

section \<open>Requests and their dispatch\<close>

datatype request =
    Index
  | PostBusiness request_body
  | GetBusinesses "int option" "int option"
  | GetBusinessById int
  | ListBusinessesForOwner int
  | EditBusiness int request_body
  | DeleteBusiness int
  | PostReviews request_body
  | GetReviewById int
  | ListReviewsForUser int
  | EditReview int request_body
  | DeleteReview int

fun handle :: "conversion \<Rightarrow> request \<Rightarrow> store \<Rightarrow> (exn + response) \<times> store" where
  "handle cv Index s = (Inr index, s)"
| "handle cv (PostBusiness rb) s = post_business cv rb s"
| "handle cv (GetBusinesses l off) s = (get_businesses cv l off s, s)"
| "handle cv (GetBusinessById b) s = (get_business_by_id cv b s, s)"
| "handle cv (ListBusinessesForOwner ow) s = (list_businesses_for_owner cv ow s, s)"
| "handle cv (EditBusiness b rb) s = edit_business cv b rb s"
| "handle cv (DeleteBusiness b) s = delete_business b s"
| "handle cv (PostReviews rb) s = post_reviews cv rb s"
| "handle cv (GetReviewById r) s = (get_review_by_id r s, s)"
| "handle cv (ListReviewsForUser u) s = (list_reviews_for_user u s, s)"
| "handle cv (EditReview r rb) s = edit_review cv r rb s"
| "handle cv (DeleteReview r) s = delete_review r s"

text \<open>
  The status of the response. Flask answers the HTTP exceptions of \<^verbatim>\<open>get_json\<close> with
  their own status, and any other exception that leaves a handler with 500.
\<close>

fun status_of :: "exn + response \<Rightarrow> nat" where
  "status_of (Inr (b, status)) = status"
| "status_of (Inl UnsupportedMediaType) = 415"
| "status_of (Inl BadRequest) = 400"
| "status_of (Inl e) = 500"

section \<open>Stores that satisfy the schema\<close>

text \<open>
  The constraints of \<^verbatim>\<open>create_tables\<close> as a predicate on the store: the primary keys,
  \<^verbatim>\<open>uq_user_business\<close>, \<^verbatim>\<open>ck_stars\<close>, \<^verbatim>\<open>fk_reviews_business\<close>, the range of the
  \<^verbatim>\<open>INT\<close> columns, and counters that are in range and lie above the ids in use unless
  they have reached the largest id.
\<close>

definition int_ok :: "int \<Rightarrow> bool" where
  "int_ok i = (INT_MIN \<le> i \<and> i \<le> INT_MAX)"

definition below_counter :: "int \<Rightarrow> int \<Rightarrow> bool" where
  "below_counter c i = (i < c \<or> c = INT_MAX)"

definition wf_store :: "store \<Rightarrow> bool" where
  "wf_store s =
     (distinct (map business_id (businesses s)) \<and>
      distinct (map review_id (reviews s)) \<and>
      distinct (map (\<lambda>r. (user_id r, review_business_id r)) (reviews s)) \<and>
      list_all (\<lambda>r. ck_stars (stars r)) (reviews s) \<and>
      list_all (\<lambda>r. review_business_id r \<in> set (map business_id (businesses s))) (reviews s) \<and>
      list_all (\<lambda>r. int_ok (business_id r) \<and> int_ok (owner_id r)) (businesses s) \<and>
      list_all (\<lambda>r. int_ok (review_id r) \<and> int_ok (user_id r)) (reviews s) \<and>
      int_ok (businesses_auto_increment s) \<and>
      int_ok (reviews_auto_increment s) \<and>
      list_all (\<lambda>r. below_counter (businesses_auto_increment s) (business_id r)) (businesses s) \<and>
      list_all (\<lambda>r. below_counter (reviews_auto_increment s) (review_id r)) (reviews s))"

text \<open>The store right after \<^verbatim>\<open>create_tables\<close> on an empty database.\<close>

definition empty_store :: store where
  "empty_store =
     \<lparr>businesses = [], reviews = [], businesses_auto_increment = 1, reviews_auto_increment = 1\<rparr>"

section \<open>Sequences of requests\<close>

text \<open>The requests of a sequence, each with the status of its response.\<close>

fun run :: "conversion \<Rightarrow> request list \<Rightarrow> store \<Rightarrow> (request \<times> nat) list" where
  "run cv [] s = []"
| "run cv (req # reqs) s =
     (case handle cv req s of (res, s') \<Rightarrow> (req, status_of res) # run cv reqs s')"

definition is_2xx :: "nat \<Rightarrow> bool" where
  "is_2xx status = (200 \<le> status \<and> status < 300)"

definition creates_business :: "request \<Rightarrow> bool" where
  "creates_business req = (case req of PostBusiness rb \<Rightarrow> True | _ \<Rightarrow> False)"

definition creates_review :: "request \<Rightarrow> bool" where
  "creates_review req = (case req of PostReviews rb \<Rightarrow> True | _ \<Rightarrow> False)"

text \<open>How many times a request of a sequence was answered with a 2xx status.\<close>

definition successes :: "request \<Rightarrow> (request \<times> nat) list \<Rightarrow> nat" where
  "successes req log = length (filter (\<lambda>(q, status). q = req \<and> is_2xx status) log)"

text \<open>A store with one business and one review of it, for the examples.\<close>

definition store1 :: store where
  "store1 =
     \<lparr>businesses =
        [\<lparr>business_id = 1, owner_id = 7, name = ''Cafe'', street_address = ''1 Main St'',
          city = ''Corvallis'', state = ''OR'', zip_code = ''97330''\<rparr>],
      reviews =
        [\<lparr>review_id = 1, user_id = 5, review_business_id = 1, stars = 4,
          review_text = ''Good''\<rparr>],
      businesses_auto_increment = 2, reviews_auto_increment = 2\<rparr>"

text \<open>
  A store that takes no string and no float for an integer, and a Python that reads no
  integer beyond ASCII.
\<close>

definition no_strings :: conversion where
  "no_strings =
     \<lparr>cast_int = (\<lambda>x. None), compare_int = (\<lambda>x. None), float_text = (\<lambda>lit. lit),
      unicode_int = (\<lambda>t. None)\<rparr>"

text \<open>A store with four businesses and no review.\<close>

definition example_business :: "int \<Rightarrow> business_row" where
  "example_business b =
     \<lparr>business_id = b, owner_id = 7, name = ''Cafe'', street_address = ''1 Main St'',
      city = ''Corvallis'', state = ''OR'', zip_code = ''97330''\<rparr>"

definition store4 :: store where
  "store4 =
     \<lparr>businesses = map example_business [3, 1, 4, 2], reviews = [],
      businesses_auto_increment = 5, reviews_auto_increment = 1\<rparr>"

text \<open>Every store that the service reaches from the empty tables satisfies the schema.\<close>

fun final_store :: "conversion \<Rightarrow> request list \<Rightarrow> store \<Rightarrow> store" where
  "final_store cv [] s = s"
| "final_store cv (req # reqs) s = final_store cv reqs (snd (handle cv req s))"

section \<open>Lemmas on the helper functions and the statements\<close>

subsection \<open>Required fields\<close>

lemma missing_review_fields:
  "truthy (has_required_fields c REQUIRED_REVIEW_FIELDS) \<longleftrightarrow>
     c ''user_id'' = None \<or> c ''business_id'' = None \<or> c ''stars'' = None"
  by (simp add: has_required_fields_def REQUIRED_REVIEW_FIELDS_def truthy_def)

lemma missing_business_fields:
  "truthy (has_required_fields c REQUIRED_BUSINESS_FIELDS) \<longleftrightarrow>
     c ''owner_id'' = None \<or> c ''name'' = None \<or> c ''street_address'' = None \<or>
     c ''city'' = None \<or> c ''state'' = None \<or> c ''zip_code'' = None"
  by (simp add: has_required_fields_def REQUIRED_BUSINESS_FIELDS_def truthy_def)

lemma and_then_getitem [simp]:
  "and_then (getitem c k) f = (case c k of None \<Rightarrow> Inl (KeyError k) | Some v \<Rightarrow> f v)"
  by (simp add: and_then_def getitem_def split: option.splits)

subsection \<open>What the statements leave alone\<close>

lemma business_columns_id:
  "business_columns cv b ops = Inr row \<Longrightarrow> business_id row = b"
  by (auto simp: business_columns_def and_then_def split: sum.splits prod.splits)

lemma update_business_rows:
  "update_business cv ov nv av tv sv zv b s = Inr s' \<Longrightarrow>
     map business_id (businesses s') = map business_id (businesses s) \<and> reviews s' = reviews s"
  by (auto simp: update_business_def and_then_def dest: business_columns_id
        split: if_splits sum.splits)

lemma insert_business_rows:
  "reviews (snd (insert_business cv ov nv av tv sv zv s)) = reviews s"
  by (simp add: insert_business_def Let_def split: sum.splits)

lemma insert_review_businesses:
  "businesses (snd (insert_review cv uv bv sv tv s)) = businesses s"
  by (simp add: insert_review_def Let_def split: sum.splits)


lemma update_review_stars_rows:
  "update_review_stars cv sv r s = Inr s' \<Longrightarrow>
     map review_id (reviews s') = map review_id (reviews s) \<and> businesses s' = businesses s"
  by (auto simp: update_review_stars_def and_then_def split: if_splits sum.splits)

lemma update_review_stars_text_rows:
  "update_review_stars_text cv sv tv r s = Inr s' \<Longrightarrow>
     map review_id (reviews s') = map review_id (reviews s) \<and> businesses s' = businesses s"
  by (auto simp: update_review_stars_text_def and_then_def split: if_splits sum.splits)

subsection \<open>The store after a handler\<close>

lemma snd_post_business:
  "snd (post_business cv rb s) = s \<or>
   (\<exists>ov nv av tv sv zv. snd (post_business cv rb s) = snd (insert_business cv ov nv av tv sv zv s))"
proof (cases "get_json rb")
  case (Inl e)
  then show ?thesis by (simp add: post_business_def)
next
  case (Inr c)
  show ?thesis
  proof (cases "truthy (has_required_fields c REQUIRED_BUSINESS_FIELDS)")
    case True
    with Inr show ?thesis by (simp add: post_business_def)
  next
    case False
    then obtain ov nv av tv sv zv where f: "c ''owner_id'' = Some ov" "c ''name'' = Some nv"
      "c ''street_address'' = Some av" "c ''city'' = Some tv" "c ''state'' = Some sv"
      "c ''zip_code'' = Some zv"
      by (auto simp: missing_business_fields)
    have "snd (post_business_try cv c s) = snd (insert_business cv ov nv av tv sv zv s)"
      by (simp add: post_business_try_def f split: prod.splits sum.splits)
    then have "snd (post_business cv rb s) = snd (insert_business cv ov nv av tv sv zv s)"
      using Inr False by (auto simp: post_business_def split: prod.splits sum.splits)
    then show ?thesis by blast
  qed
qed

lemma snd_edit_business:
  "snd (edit_business cv b rb s) = s \<or>
   (\<exists>ov nv av tv sv zv. update_business cv ov nv av tv sv zv b s = Inr (snd (edit_business cv b rb s)))"
proof (cases "get_json rb")
  case (Inl e)
  then show ?thesis by (simp add: edit_business_def)
next
  case (Inr c)
  show ?thesis
  proof (cases "truthy (has_required_fields c REQUIRED_BUSINESS_FIELDS)")
    case True
    with Inr show ?thesis by (simp add: edit_business_def)
  next
    case False
    then obtain ov nv av tv sv zv where f: "c ''owner_id'' = Some ov" "c ''name'' = Some nv"
      "c ''street_address'' = Some av" "c ''city'' = Some tv" "c ''state'' = Some sv"
      "c ''zip_code'' = Some zv"
      by (auto simp: missing_business_fields)
    have "snd (edit_business cv b rb s) = s \<or>
          update_business cv ov nv av tv sv zv b s = Inr (snd (edit_business cv b rb s))"
      using Inr False by (simp add: edit_business_def f split: sum.splits option.splits)
    then show ?thesis by blast
  qed
qed

lemma snd_post_reviews:
  "snd (post_reviews cv rb s) = s \<or>
   (\<exists>uv bv sv tv. snd (post_reviews cv rb s) = snd (insert_review cv uv bv sv tv s))"
proof (cases "get_json rb")
  case (Inl e)
  then show ?thesis by (simp add: post_reviews_def)
next
  case (Inr c)
  show ?thesis
  proof (cases "truthy (has_required_fields c REQUIRED_REVIEW_FIELDS)")
    case True
    with Inr show ?thesis by (simp add: post_reviews_def)
  next
    case False
    then obtain uv bv sv where f: "c ''user_id'' = Some uv" "c ''business_id'' = Some bv"
      "c ''stars'' = Some sv"
      by (auto simp: missing_review_fields)
    have "snd (post_reviews_try cv c s) = s \<or> snd (post_reviews_try cv c s) =
            snd (insert_review cv uv bv sv (get_default c ''review_text'' (JStr [])) s)"
      by (simp add: post_reviews_try_def f split: prod.splits sum.splits option.splits)
    then have "snd (post_reviews cv rb s) = s \<or> snd (post_reviews cv rb s) =
            snd (insert_review cv uv bv sv (get_default c ''review_text'' (JStr [])) s)"
      using Inr False by (auto simp: post_reviews_def split: prod.splits sum.splits)
    then show ?thesis by blast
  qed
qed

lemma snd_edit_review:
  "snd (edit_review cv r rb s) = s \<or>
   (\<exists>sv. update_review_stars cv sv r s = Inr (snd (edit_review cv r rb s))) \<or>
   (\<exists>sv tv. update_review_stars_text cv sv tv r s = Inr (snd (edit_review cv r rb s)))"
  by (auto simp: edit_review_def Let_def split: option.splits sum.splits db_error.splits)

lemma snd_delete_business:
  "snd (delete_business b s) = snd (delete_from_businesses b s)"
  by (simp add: delete_business_def split: prod.splits)

lemma snd_delete_review:
  "snd (delete_review r s) = snd (delete_from_reviews r s)"
  by (simp add: delete_review_def split: prod.splits)

subsection \<open>Deleting\<close>

lemma delete_business_absent:
  "select_business b s = [] \<Longrightarrow>
     delete_business b s = (Inr (ERROR_BUSINESS_NOT_FOUND, 404), s)"
  by (simp add: delete_business_def delete_from_businesses_def select_business_def
        filter_empty_conv filter_id_conv)

lemma delete_business_present:
  "select_business b s \<noteq> [] \<Longrightarrow>
     delete_business b s =
       (Inr (EmptyBody, 204),
        s\<lparr>businesses := filter (\<lambda>r. business_id r \<noteq> b) (businesses s),
          reviews := filter (\<lambda>r. review_business_id r \<noteq> b) (reviews s)\<rparr>)"
  by (simp add: delete_business_def delete_from_businesses_def)

lemma delete_review_absent:
  "select_review r s = [] \<Longrightarrow> delete_review r s = (Inr (ERROR_REVIEW_NOT_FOUND, 404), s)"
  by (simp add: delete_review_def delete_from_reviews_def select_review_def
        filter_empty_conv filter_id_conv)


lemma select_business_after_delete:
  "select_business b (snd (delete_business b s)) = []"
  by (simp add: snd_delete_business delete_from_businesses_def select_business_def)

lemma select_review_after_delete:
  "select_review r (snd (delete_review r s)) = []"
  by (simp add: snd_delete_review delete_from_reviews_def select_review_def)

lemma select_business_empty:
  "select_business b s = [] \<longleftrightarrow> b \<notin> set (map business_id (businesses s))"
  by (auto simp: select_business_def filter_empty_conv)

lemma select_review_empty:
  "select_review r s = [] \<longleftrightarrow> r \<notin> set (map review_id (reviews s))"
  by (auto simp: select_review_def filter_empty_conv)

subsection \<open>Ids are created by the two POST handlers only\<close>

lemma business_ids_kept:
  assumes "\<not> creates_business req"
  shows "set (map business_id (businesses (snd (handle cv req s))))
           \<subseteq> set (map business_id (businesses s))"
proof (cases req)
  case (EditBusiness b rb)
  then show ?thesis
    using snd_edit_business [of cv b rb s] update_business_rows by fastforce
next
  case (DeleteBusiness b)
  then show ?thesis
    by (auto simp: snd_delete_business delete_from_businesses_def)
next
  case (PostReviews rb)
  then show ?thesis
    using snd_post_reviews [of cv rb s] insert_review_businesses by fastforce
next
  case (EditReview r rb)
  then show ?thesis
    using snd_edit_review [of cv r rb s] update_review_stars_rows update_review_stars_text_rows
    by fastforce
next
  case (DeleteReview r)
  then show ?thesis
    by (simp add: snd_delete_review delete_from_reviews_def)
qed (use assms in \<open>simp_all add: creates_business_def\<close>)

lemma review_ids_kept:
  assumes "\<not> creates_review req"
  shows "set (map review_id (reviews (snd (handle cv req s))))
           \<subseteq> set (map review_id (reviews s))"
proof (cases req)
  case (PostBusiness rb)
  then show ?thesis
    using snd_post_business [of cv rb s] insert_business_rows by fastforce
next
  case (EditBusiness b rb)
  then show ?thesis
    using snd_edit_business [of cv b rb s] update_business_rows by fastforce
next
  case (DeleteBusiness b)
  then show ?thesis
    by (auto simp: snd_delete_business delete_from_businesses_def)
next
  case (EditReview r rb)
  then show ?thesis
    using snd_edit_review [of cv r rb s] update_review_stars_rows update_review_stars_text_rows
    by fastforce
next
  case (DeleteReview r)
  then show ?thesis
    by (auto simp: snd_delete_review delete_from_reviews_def)
qed (use assms in \<open>simp_all add: creates_review_def\<close>)

subsection \<open>Repeated deletion\<close>

lemma successes_Nil [simp]: "successes req [] = 0"
  by (simp add: successes_def)

lemma successes_Cons [simp]:
  "successes req ((q, status) # log) =
     (if q = req \<and> is_2xx status then Suc (successes req log) else successes req log)"
  by (simp add: successes_def)

lemma absent_business_never_deleted:
  "list_all (\<lambda>q. \<not> creates_business q) reqs \<Longrightarrow> select_business b s = [] \<Longrightarrow>
     successes (DeleteBusiness b) (run cv reqs s) = 0"
proof (induction reqs arbitrary: s)
  case Nil
  then show ?case by simp
next
  case (Cons req reqs)
  obtain res s' where h: "handle cv req s = (res, s')"
    by (cases "handle cv req s")
  from Cons.prems have nc: "\<not> creates_business req" and rest: "list_all (\<lambda>q. \<not> creates_business q) reqs"
    by simp_all
  have "select_business b s' = []"
    using business_ids_kept [OF nc, of cv s] Cons.prems(2) h
    by (auto simp: select_business_empty)
  then have "successes (DeleteBusiness b) (run cv reqs s') = 0"
    using Cons.IH rest by blast
  moreover have "req = DeleteBusiness b \<Longrightarrow> \<not> is_2xx (status_of res)"
    using h Cons.prems(2) by (auto simp: delete_business_absent is_2xx_def)
  ultimately show ?case
    using h by auto
qed

lemma business_deleted_once:
  "list_all (\<lambda>q. \<not> creates_business q) reqs \<Longrightarrow>
     successes (DeleteBusiness b) (run cv reqs s) \<le> 1"
proof (induction reqs arbitrary: s)
  case Nil
  then show ?case by simp
next
  case (Cons req reqs)
  obtain res s' where h: "handle cv req s = (res, s')"
    by (cases "handle cv req s")
  from Cons.prems have rest: "list_all (\<lambda>q. \<not> creates_business q) reqs"
    by simp
  show ?case
  proof (cases "req = DeleteBusiness b")
    case True
    then have "select_business b s' = []"
      using h select_business_after_delete [of b s] by simp
    then have "successes (DeleteBusiness b) (run cv reqs s') = 0"
      using absent_business_never_deleted rest by blast
    then show ?thesis using h by simp
  next
    case False
    then show ?thesis using h Cons.IH [OF rest, of s'] by simp
  qed
qed

lemma absent_review_never_deleted:
  "list_all (\<lambda>q. \<not> creates_review q) reqs \<Longrightarrow> select_review r s = [] \<Longrightarrow>
     successes (DeleteReview r) (run cv reqs s) = 0"
proof (induction reqs arbitrary: s)
  case Nil
  then show ?case by simp
next
  case (Cons req reqs)
  obtain res s' where h: "handle cv req s = (res, s')"
    by (cases "handle cv req s")
  from Cons.prems have nc: "\<not> creates_review req" and rest: "list_all (\<lambda>q. \<not> creates_review q) reqs"
    by simp_all
  have "select_review r s' = []"
    using review_ids_kept [OF nc, of cv s] Cons.prems(2) h
    by (auto simp: select_review_empty)
  then have "successes (DeleteReview r) (run cv reqs s') = 0"
    using Cons.IH rest by blast
  moreover have "req = DeleteReview r \<Longrightarrow> \<not> is_2xx (status_of res)"
    using h Cons.prems(2) by (auto simp: delete_review_absent is_2xx_def)
  ultimately show ?case
    using h by auto
qed

lemma review_deleted_once:
  "list_all (\<lambda>q. \<not> creates_review q) reqs \<Longrightarrow>
     successes (DeleteReview r) (run cv reqs s) \<le> 1"
proof (induction reqs arbitrary: s)
  case Nil
  then show ?case by simp
next
  case (Cons req reqs)
  obtain res s' where h: "handle cv req s = (res, s')"
    by (cases "handle cv req s")
  from Cons.prems have rest: "list_all (\<lambda>q. \<not> creates_review q) reqs"
    by simp
  show ?case
  proof (cases "req = DeleteReview r")
    case True
    then have "select_review r s' = []"
      using h select_review_after_delete [of r s] by simp
    then have "successes (DeleteReview r) (run cv reqs s') = 0"
      using absent_review_never_deleted rest by blast
    then show ?thesis using h by simp
  next
    case False
    then show ?thesis using h Cons.IH [OF rest, of s'] by simp
  qed
qed

subsection \<open>Examples and keys\<close>

lemma wf_store1: "wf_store store1"
  by (simp add: wf_store_def store1_def ck_stars_def int_ok_def INT_MIN_def INT_MAX_def
        below_counter_def)

lemma same_key_same_row:
  "distinct (map f xs) \<Longrightarrow> x \<in> set xs \<Longrightarrow> y \<in> set xs \<Longrightarrow> f x = f y \<Longrightarrow> x = y"
  by (auto simp: distinct_map inj_on_def)

subsection \<open>Rendering rows\<close>

lemma py_int_error: "py_int cv t = Inl e \<Longrightarrow> e = ValueError"
  by (auto simp: py_int_def split: option.splits)

lemma row_to_business_dict_error: "row_to_business_dict cv row = Inl e \<Longrightarrow> e = ValueError"
  by (auto simp: row_to_business_dict_def dest: py_int_error split: sum.splits)

lemma row_to_business_dict_id:
  "row_to_business_dict cv row = Inr d \<Longrightarrow> bd_id d = business_id row"
  by (auto simp: row_to_business_dict_def split: sum.splits)

lemma map_rows_error:
  "map_rows (row_to_business_dict cv) rows = Inl e \<Longrightarrow> e = ValueError"
  by (induction rows arbitrary: e)
     (auto dest: row_to_business_dict_error split: sum.splits)

lemma map_rows_Inr:
  "map_rows f rows = Inr ds \<Longrightarrow> map f rows = map Inr ds"
  by (induction rows arbitrary: ds) (auto split: sum.splits)

lemma map_rows_length:
  "map_rows f rows = Inr ds \<Longrightarrow> length ds = length rows"
  by (induction rows arbitrary: ds) (auto split: sum.splits)

lemma map_rows_ids:
  "map_rows (row_to_business_dict cv) rows = Inr ds \<Longrightarrow> map bd_id ds = map business_id rows"
  by (induction rows arbitrary: ds) (auto dest: row_to_business_dict_id split: sum.splits)

lemma map_rows_total:
  "list_all (\<lambda>r. \<exists>d. f r = Inr d) rows \<Longrightarrow> \<exists>ds. map_rows f rows = Inr ds"
  by (induction rows) auto

lemma renders:
  "py_int cv (zip_code row) \<noteq> Inl ValueError \<Longrightarrow> \<exists>d. row_to_business_dict cv row = Inr d"
  by (cases "py_int cv (zip_code row)") (auto simp: row_to_business_dict_def dest: py_int_error)

lemma rows_render:
  assumes "list_all (\<lambda>r. py_int cv (zip_code r) \<noteq> Inl ValueError) rows"
  shows "\<exists>ds. map_rows (row_to_business_dict cv) rows = Inr ds"
proof -
  have "list_all (\<lambda>r. \<exists>d. row_to_business_dict cv r = Inr d) rows"
    using assms renders by (auto simp: list_all_iff)
  then show ?thesis by (rule map_rows_total)
qed

lemma get_businesses_defaults:
  "limit_arg = None \<or> offset_arg = None \<Longrightarrow>
     get_businesses cv limit_arg offset_arg s = get_businesses cv (Some 3) (Some 0) s"
  by (auto simp: get_businesses_def split: option.splits)

lemma get_businesses_first_page:
  "get_businesses cv (Some 3) (Some 0) s =
     (case map_rows (row_to_business_dict cv) (take 3 (select_businesses_page 4 0 s)) of
        Inl e \<Rightarrow> Inl e
      | Inr entries \<Rightarrow>
          Inr (PageBody entries
                 (if 3 < length (select_businesses_page 4 0 s)
                  then Some (BusinessesLink 3 3) else None), 200))"
  by (simp add: get_businesses_def slice_to_def Let_def max_def split: sum.splits)

lemmas py_int_defs = py_int_def is_ascii_def ascii_int_def strip_def is_space_def
  unsigned_digits_def is_digit_def digit_value_def

subsection \<open>Values that the columns accept\<close>

lemma int_value_ok:
  "int_ok i \<Longrightarrow> int_value col i = Inr i"
  by (simp add: int_value_def int_ok_def)

lemma int_column_ok:
  "int_column cv col v = Inr i \<Longrightarrow> int_ok i"
  by (cases v) (auto simp: int_value_def int_ok_def split: if_splits option.splits)

lemma ck_stars_int_ok: "ck_stars n \<Longrightarrow> int_ok n"
  by (simp add: ck_stars_def int_ok_def INT_MIN_def INT_MAX_def)

lemma varchar_param_JStr:
  "length t \<le> n \<Longrightarrow> varchar_param cv n col (JStr t) = Inr t"
  by (simp add: varchar_param_def bound_def and_then_def text_value_def)

lemma varchar_param_error:
  "varchar_param cv n col v = Inl e \<Longrightarrow>
     e = NotAnOperand \<or> e = cannot_be_null col \<or> (\<exists>m. e = DataError m)"
  by (cases "operand v"; cases "the (operand v)")
     (auto simp: varchar_param_def bound_def and_then_def text_value_def split: if_splits)

lemma review_insert_accepted:
  assumes "int_ok u" and "int_ok b" and "int_ok n"
    and "varchar_param cv 1000 ''review_text'' tv = Inr t"
  shows "and_then (review_operands (JInt u) (JInt b) (JInt n) tv) (review_columns cv r) =
           Inr \<lparr>review_id = r, user_id = u, review_business_id = b, stars = n, review_text = t\<rparr>"
  using assms
  by (auto simp: review_operands_def review_columns_def varchar_param_def bound_def
        and_then_def int_value_ok split: option.splits sum.splits)

subsection \<open>Rows by their key\<close>

lemma filter_key_single:
  "distinct (map f xs) \<Longrightarrow> x \<in> set xs \<Longrightarrow> filter (\<lambda>y. f y = f x) xs = [x]"
proof (induction xs)
  case Nil
  then show ?case by simp
next
  case (Cons a xs)
  show ?case
  proof (cases "a = x")
    case True
    then have "filter (\<lambda>y. f y = f x) xs = []"
      using Cons.prems(1) by (auto simp: filter_empty_conv image_iff)
    with True show ?thesis by simp
  next
    case False
    then have "x \<in> set xs" using Cons.prems(2) by simp
    moreover have "f a \<noteq> f x"
      using Cons.prems(1) \<open>x \<in> set xs\<close> by auto
    ultimately show ?thesis using Cons by simp
  qed
qed

lemma select_business_single:
  assumes "wf_store s" and "b \<in> set (map business_id (businesses s))"
  shows "\<exists>row. select_business b s = [row]"
proof -
  obtain row where "row \<in> set (businesses s)" and "business_id row = b"
    using assms(2) by auto
  moreover have "distinct (map business_id (businesses s))"
    using assms(1) by (simp add: wf_store_def)
  ultimately have "select_business b s = [row]"
    using filter_key_single [of business_id "businesses s" row]
    by (simp add: select_business_def)
  then show ?thesis ..
qed

lemma select_review_single:
  assumes "wf_store s" and "row \<in> set (reviews s)"
  shows "select_review (review_id row) s = [row]"
proof -
  have "distinct (map review_id (reviews s))"
    using assms(1) by (simp add: wf_store_def)
  then show ?thesis
    using filter_key_single [of review_id "reviews s" row] assms(2)
    by (simp add: select_review_def)
qed

subsection \<open>\<^verbatim>\<open>post_reviews\<close> once the business is found\<close>

lemma post_reviews_insert:
  assumes "content ''user_id'' = Some uv" and "content ''business_id'' = Some bv"
    and "content ''stars'' = Some sv"
    and "select_business_where cv bv s = Inr [found]"
  shows "post_reviews cv (Parsed content) s =
           (case insert_review cv uv bv sv (get_default content ''review_text'' (JStr [])) s of
              (Inl e, s') \<Rightarrow> (Inr (post_reviews_except (ExecuteError e)), s')
            | (Inr new_id, s') \<Rightarrow>
                (case one (select_review new_id s') of
                   Inl e \<Rightarrow> (Inr (post_reviews_except e), s')
                 | Inr row \<Rightarrow> (Inr (ReviewBody (row_to_review_dict row), 201), s')))"
  using assms
  by (simp add: post_reviews_def missing_review_fields post_reviews_try_def one_or_none_def
        split: prod.splits sum.splits)

lemma insert_review_check:
  assumes "and_then (review_operands uv bv sv tv) (review_columns cv (reviews_auto_increment s)) =
             Inr row"
    and "\<not> ck_stars (stars row)"
  shows "insert_review cv uv bv sv tv s = (Inl ck_stars_violated, s)"
  using assms by (simp add: insert_review_def)

lemma insert_review_duplicate:
  assumes "and_then (review_operands uv bv sv tv) (review_columns cv (reviews_auto_increment s)) =
             Inr row"
    and "ck_stars (stars row)"
    and "(user_id row, review_business_id row)
           \<in> set (map (\<lambda>r. (user_id r, review_business_id r)) (reviews s))"
  shows "\<exists>entry key. insert_review cv uv bv sv tv s =
           (Inl (duplicate_entry entry key),
            s\<lparr>reviews_auto_increment := auto_increment (reviews_auto_increment s)\<rparr>)"
  using assms by (auto simp: insert_review_def Let_def)

lemma insert_review_accepted:
  assumes "and_then (review_operands uv bv sv tv) (review_columns cv (reviews_auto_increment s)) =
             Inr row"
    and "ck_stars (stars row)"
    and "reviews_auto_increment s \<notin> set (map review_id (reviews s))"
    and "(user_id row, review_business_id row)
           \<notin> set (map (\<lambda>r. (user_id r, review_business_id r)) (reviews s))"
    and "review_business_id row \<in> set (map business_id (businesses s))"
  shows "insert_review cv uv bv sv tv s =
           (Inr (reviews_auto_increment s),
            s\<lparr>reviews_auto_increment := auto_increment (reviews_auto_increment s),
              reviews := reviews s @ [row]\<rparr>)"
  using assms by (simp add: insert_review_def Let_def)

subsection \<open>The messages of the store, as the handler classifies them\<close>

lemma lower_append: "lower (a @ b) = lower a @ lower b"
  by (simp add: lower_def)

lemma starts_with_append: "starts_with p (p @ s)"
  by (induction p) auto

lemma contains_prefix: "contains p (p @ s)"
  by (cases "p @ s") (use starts_with_append [of p s] in auto)

lemma contains_append: "contains p a \<Longrightarrow> contains p (b @ a)"
  by (induction b) auto

lemma lower_dup: "lower ''Duplicate entry '' = ''duplicate entry ''"
  by (simp add: lower_def lower_char_def)

lemma except_duplicate:
  "contains ''duplicate'' (lower m) \<Longrightarrow>
     post_reviews_except (ExecuteError (IntegrityError m)) = bad_request ALREADY_REVIEWED 409"
  by simp

lemma duplicate_entry_is_conflict:
  "post_reviews_except (ExecuteError (duplicate_entry e k)) = bad_request ALREADY_REVIEWED 409"
proof -
  define rest where "rest = quoted e @ '' for key '' @ quoted k"
  have "lower (''Duplicate entry '' @ rest) = ''duplicate'' @ ('' entry '' @ lower rest)"
    by (simp add: lower_def lower_char_def)
  then have "contains ''duplicate'' (lower (''Duplicate entry '' @ rest))"
    by (simp only: contains_prefix)
  then show ?thesis
    unfolding duplicate_entry_def rest_def by (rule except_duplicate)
qed

lemma ck_stars_is_unexpected:
  "post_reviews_except (ExecuteError ck_stars_violated) =
     (ErrorBody ''Unable to create review'', 500)"
  by (simp add: ck_stars_violated_def)

lemma foreign_key_is_invalid:
  "post_reviews_except (ExecuteError foreign_key_fails) = bad_request ''Invalid review data'' 400"
  by (simp add: foreign_key_fails_def lower_def lower_char_def quoted_def)

lemma null_is_invalid:
  "col \<in> set [''user_id'', ''business_id'', ''stars'', ''review_text''] \<Longrightarrow>
   post_reviews_except (ExecuteError (cannot_be_null col)) = bad_request ''Invalid review data'' 400"
  by (auto simp add: cannot_be_null_def lower_def lower_char_def quoted_def)

lemma wf_store_ints:
  assumes "wf_store s" and "row \<in> set (reviews s)"
  shows "int_ok (user_id row) \<and> int_ok (review_business_id row) \<and> ck_stars (stars row)"
proof -
  have "int_ok (user_id row)" and "ck_stars (stars row)"
    and "review_business_id row \<in> set (map business_id (businesses s))"
    using assms by (auto simp: wf_store_def list_all_iff)
  moreover have "int_ok (business_id x)" if "x \<in> set (businesses s)" for x
    using assms(1) that by (auto simp: wf_store_def list_all_iff)
  ultimately show ?thesis by auto
qed

subsection \<open>Unfolding \<^verbatim>\<open>post_reviews\<close> on an example\<close>

lemmas post_reviews_defs = post_reviews_def post_reviews_try_def and_then_def getitem_def
  has_required_fields_def REQUIRED_REVIEW_FIELDS_def truthy_def one_or_none_def one_def
  select_business_where_def select_business_def select_review_def insert_review_def
  review_operands_def bound_def review_columns_def int_value_def INT_MIN_def INT_MAX_def ck_stars_def get_default_def
  text_value_def bad_request_def ck_stars_violated_def lower_def lower_char_def quoted_def
  auto_increment_def row_to_review_dict_def Let_def

subsection \<open>Updating the row of a review\<close>

lemma select_review_after_update:
  assumes "select_review r s = [row]" and "\<And>x. review_id (g x) = review_id x"
  shows "select_review r
           (s\<lparr>reviews := map (\<lambda>x. if review_id x = r then g x else x) (reviews s)\<rparr>) = [g row]"
proof -
  have "filter (\<lambda>x. review_id x = r) (map (\<lambda>x. if review_id x = r then g x else x) xs) =
          map g (filter (\<lambda>x. review_id x = r) xs)" for xs
    by (induction xs) (simp_all add: assms(2))
  then show ?thesis
    using assms(1) by (simp add: select_review_def)
qed

lemma others_after_update:
  assumes "\<And>x. review_id (g x) = review_id x"
  shows "filter (\<lambda>x. review_id x \<noteq> r) (map (\<lambda>x. if review_id x = r then g x else x) xs) =
           filter (\<lambda>x. review_id x \<noteq> r) xs"
  by (induction xs) (simp_all add: assms)

lemma edit_review_update:
  assumes "content ''stars'' = Some sv" and "select_review r s = [row]"
  shows "edit_review cv r (Parsed content) s =
           (case (case content ''review_text'' of
                    Some tv \<Rightarrow> update_review_stars_text cv sv tv r s
                  | None \<Rightarrow> update_review_stars cv sv r s) of
              Inl e \<Rightarrow> (edit_review_except e, s)
            | Inr s' \<Rightarrow>
                (case one (select_review r s') of
                   Inl e \<Rightarrow> (Inl e, s')
                 | Inr row' \<Rightarrow> (Inr (ReviewBody (row_to_review_dict row'), 200), s')))"
  using assms
  by (simp add: edit_review_def or_empty_def one_or_none_def bad_request_def
        split: option.splits sum.splits db_error.splits)

lemmas edit_review_defs = edit_review_def or_empty_def one_or_none_def one_def
  select_review_def update_review_stars_def update_review_stars_text_def and_then_def
  bound_def int_value_def INT_MIN_def INT_MAX_def ck_stars_def ck_stars_violated_def text_value_def
  bad_request_def row_to_review_dict_def

subsection \<open>Responses with a status of 400, 404 or 409\<close>


lemma one_or_none_error: "one_or_none rows = Inl e \<Longrightarrow> e = MultipleResultsFound"
  by (auto simp: one_or_none_def split: list.splits)










subsection \<open>The schema is an invariant of the service\<close>

lemma wf_store_empty: "wf_store empty_store"
  by (simp add: wf_store_def empty_store_def int_ok_def INT_MIN_def INT_MAX_def)

lemma below_counter_auto_increment:
  "below_counter c i \<Longrightarrow> below_counter (auto_increment c) i"
  by (auto simp: below_counter_def auto_increment_def)

lemma below_counter_new: "below_counter (auto_increment c) c"
  by (auto simp: below_counter_def auto_increment_def)

lemma int_ok_auto_increment: "int_ok c \<Longrightarrow> int_ok (auto_increment c)"
  by (auto simp: int_ok_def auto_increment_def INT_MIN_def INT_MAX_def)

lemma and_then_Inr:
  "and_then m f = Inr y \<Longrightarrow> \<exists>x. m = Inr x \<and> f x = Inr y"
  by (cases m) (simp_all add: and_then_def)

lemma business_columns_row:
  "and_then m (business_columns cv b) = Inr row \<Longrightarrow>
     business_id row = b \<and> int_ok (owner_id row)"
  by (auto simp: business_columns_def and_then_def dest: int_column_ok
        split: sum.splits prod.splits)

lemma review_columns_row:
  "and_then m (review_columns cv r) = Inr row \<Longrightarrow>
     review_id row = r \<and> int_ok (user_id row)"
  by (auto simp: review_columns_def and_then_def dest: int_column_ok
        split: sum.splits prod.splits)

lemma wf_store_counters:
  assumes "wf_store s"
  shows "wf_store (s\<lparr>businesses_auto_increment := auto_increment (businesses_auto_increment s)\<rparr>)"
    and "wf_store (s\<lparr>reviews_auto_increment := auto_increment (reviews_auto_increment s)\<rparr>)"
  using assms
  by (auto simp: wf_store_def list_all_iff int_ok_auto_increment below_counter_auto_increment)

lemma wf_store_insert_business:
  assumes "wf_store s"
  shows "wf_store (snd (insert_business cv ov nv av tv sv zv s))"
proof (cases "and_then (business_operands ov nv av tv sv zv)
               (business_columns cv (businesses_auto_increment s))")
  case (Inl e)
  then show ?thesis using assms by (simp add: insert_business_def)
next
  case (Inr row)
  let ?c = "businesses_auto_increment s"
  show ?thesis
  proof (cases "?c \<in> set (map business_id (businesses s))")
    case True
    then show ?thesis
      using Inr wf_store_counters(1) [OF assms] by (simp add: insert_business_def Let_def)
  next
    case False
    have row: "business_id row = ?c" "int_ok (owner_id row)"
      using business_columns_row [OF Inr] by simp_all
    have "wf_store (s\<lparr>businesses := businesses s @ [row],
                      businesses_auto_increment := auto_increment ?c\<rparr>)"
      using assms False row
      by (auto simp: wf_store_def list_all_iff int_ok_auto_increment
            below_counter_auto_increment below_counter_new)
    then show ?thesis
      using Inr False by (simp add: insert_business_def Let_def)
  qed
qed

lemma wf_store_insert_review:
  assumes "wf_store s"
  shows "wf_store (snd (insert_review cv uv bv sv tv s))"
proof (cases "and_then (review_operands uv bv sv tv)
               (review_columns cv (reviews_auto_increment s))")
  case (Inl e)
  then show ?thesis using assms by (simp add: insert_review_def)
next
  case (Inr row)
  let ?c = "reviews_auto_increment s"
  let ?s1 = "s\<lparr>reviews_auto_increment := auto_increment ?c\<rparr>"
  have row: "review_id row = ?c" "int_ok (user_id row)"
    using review_columns_row [OF Inr] by simp_all
  have s1: "wf_store ?s1"
    by (rule wf_store_counters(2) [OF assms])
  have "snd (insert_review cv uv bv sv tv s) = s \<or> snd (insert_review cv uv bv sv tv s) = ?s1 \<or>
        (snd (insert_review cv uv bv sv tv s) = ?s1\<lparr>reviews := reviews s @ [row]\<rparr> \<and>
         ck_stars (stars row) \<and> ?c \<notin> set (map review_id (reviews s)) \<and>
         (user_id row, review_business_id row)
           \<notin> set (map (\<lambda>r. (user_id r, review_business_id r)) (reviews s)) \<and>
         review_business_id row \<in> set (map business_id (businesses s)))"
    using Inr by (simp add: insert_review_def Let_def)
  moreover have "wf_store (?s1\<lparr>reviews := reviews s @ [row]\<rparr>)"
    if "ck_stars (stars row)" and "?c \<notin> set (map review_id (reviews s))"
      and "(user_id row, review_business_id row)
             \<notin> set (map (\<lambda>r. (user_id r, review_business_id r)) (reviews s))"
      and "review_business_id row \<in> set (map business_id (businesses s))"
    using assms that row
    by (auto simp: wf_store_def list_all_iff int_ok_auto_increment
          below_counter_auto_increment below_counter_new)
  ultimately show ?thesis
    using assms s1 by auto
qed

lemma wf_store_update_business:
  assumes "wf_store s" and "update_business cv ov nv av tv sv zv b s = Inr s'"
  shows "wf_store s'"
proof (cases "select_business b s = []")
  case True
  then show ?thesis
    using assms by (auto simp: update_business_def and_then_def split: sum.splits)
next
  case False
  then obtain ops row where cols: "and_then (Inr ops) (business_columns cv b) = Inr row"
    and s': "s' = s\<lparr>businesses := map (\<lambda>r. if business_id r = b then row else r) (businesses s)\<rparr>"
    using assms(2) by (auto simp: update_business_def and_then_def split: sum.splits)
  have row: "business_id row = b" "int_ok (owner_id row)"
    using business_columns_row [OF cols] by simp_all
  have ids: "map business_id (map (\<lambda>r. if business_id r = b then row else r) (businesses s)) =
               map business_id (businesses s)"
    using row(1) by (induction "businesses s") auto
  have "b \<in> set (map business_id (businesses s))"
    using False by (simp add: select_business_empty)
  then have "int_ok b" and "below_counter (businesses_auto_increment s) b"
    using assms(1) by (auto simp: wf_store_def list_all_iff)
  then have rows: "list_all (\<lambda>r. int_ok (business_id r) \<and> int_ok (owner_id r) \<and>
                     below_counter (businesses_auto_increment s) (business_id r))
      (map (\<lambda>r. if business_id r = b then row else r) (businesses s))"
    using assms(1) row by (auto simp: wf_store_def list_all_iff)
  show ?thesis
    unfolding s' using assms(1) rows
    by (simp add: wf_store_def ids list_all_iff del: map_map)
qed

lemma wf_store_update_review:
  assumes "wf_store s" and "ck_stars n"
    and "\<And>x. review_id (g x) = review_id x \<and> user_id (g x) = user_id x \<and>
              review_business_id (g x) = review_business_id x \<and>
              (stars (g x) = n \<or> stars (g x) = stars x)"
  shows "wf_store (s\<lparr>reviews := map g (reviews s)\<rparr>)"
proof -
  have ids: "map review_id (map g (reviews s)) = map review_id (reviews s)"
    and pairs: "map (\<lambda>r. (user_id r, review_business_id r)) (map g (reviews s)) =
                  map (\<lambda>r. (user_id r, review_business_id r)) (reviews s)"
    by (simp_all add: assms(3))
  have rows: "list_all (\<lambda>r. ck_stars (stars r) \<and>
                     review_business_id r \<in> set (map business_id (businesses s)) \<and>
                     int_ok (review_id r) \<and> int_ok (user_id r) \<and>
                     below_counter (reviews_auto_increment s) (review_id r))
      (map g (reviews s))"
  proof -
    have "ck_stars (stars (g x))" if "ck_stars (stars x)" for x
      using assms(2) assms(3) [of x] that by auto
    then show ?thesis
      using assms(1) assms(3) by (auto simp: wf_store_def list_all_iff)
  qed
  show ?thesis
    using assms(1) rows
    by (simp add: wf_store_def ids pairs list_all_iff del: map_map)
qed

lemma wf_store_update_review_stars:
  assumes "wf_store s" and "update_review_stars cv sv r s = Inr s'"
  shows "wf_store s'"
proof (cases "select_review r s = []")
  case True
  then show ?thesis
    using assms by (auto simp: update_review_stars_def and_then_def split: sum.splits)
next
  case False
  then obtain n where "ck_stars n"
    and "s' = s\<lparr>reviews := map (\<lambda>row. if review_id row = r then row\<lparr>stars := n\<rparr> else row)
                              (reviews s)\<rparr>"
    using assms(2)
    by (auto simp: update_review_stars_def and_then_def split: sum.splits if_splits)
  then show ?thesis
    using wf_store_update_review
      [OF assms(1), of n "\<lambda>row. if review_id row = r then row\<lparr>stars := n\<rparr> else row"]
    by simp
qed

lemma wf_store_update_review_stars_text:
  assumes "wf_store s" and "update_review_stars_text cv sv tv r s = Inr s'"
  shows "wf_store s'"
proof (cases "select_review r s = []")
  case True
  then show ?thesis
    using assms by (auto simp: update_review_stars_text_def and_then_def split: sum.splits)
next
  case False
  then obtain n t where "ck_stars n"
    and "s' = s\<lparr>reviews :=
           map (\<lambda>row. if review_id row = r then row\<lparr>stars := n, review_text := t\<rparr> else row)
             (reviews s)\<rparr>"
    using assms(2)
    by (auto simp: update_review_stars_text_def and_then_def split: sum.splits if_splits)
  then show ?thesis
    using wf_store_update_review
      [OF assms(1), of n
         "\<lambda>row. if review_id row = r then row\<lparr>stars := n, review_text := t\<rparr> else row"]
    by simp
qed

lemma wf_store_delete_from_reviews:
  assumes "wf_store s"
  shows "wf_store (snd (delete_from_reviews r s))"
  using assms
  by (auto simp: wf_store_def delete_from_reviews_def list_all_iff distinct_map_filter)

lemma wf_store_delete_from_businesses:
  assumes "wf_store s"
  shows "wf_store (snd (delete_from_businesses b s))"
proof (cases "select_business b s = []")
  case True
  then have "filter (\<lambda>r. business_id r \<noteq> b) (businesses s) = businesses s"
    by (auto simp: select_business_def filter_empty_conv filter_id_conv)
  then show ?thesis
    using True assms by (simp add: delete_from_businesses_def)
next
  case False
  then show ?thesis
    using assms
    by (auto simp: wf_store_def delete_from_businesses_def list_all_iff distinct_map_filter)
qed

lemma wf_store_handle:
  assumes "wf_store s"
  shows "wf_store (snd (handle cv req s))"
proof (cases req)
  case (PostBusiness rb)
  then show ?thesis
    using assms snd_post_business [of cv rb s] wf_store_insert_business [OF assms, of cv]
    by auto
next
  case (EditBusiness b rb)
  then show ?thesis
    using assms snd_edit_business [of cv b rb s] wf_store_update_business [OF assms]
    by auto
next
  case (DeleteBusiness b)
  then show ?thesis
    using wf_store_delete_from_businesses [OF assms] by (simp add: snd_delete_business)
next
  case (PostReviews rb)
  then show ?thesis
    using assms snd_post_reviews [of cv rb s] wf_store_insert_review [OF assms, of cv]
    by auto
next
  case (EditReview r rb)
  then show ?thesis
    using assms snd_edit_review [of cv r rb s] wf_store_update_review_stars [OF assms]
      wf_store_update_review_stars_text [OF assms]
    by auto
next
  case (DeleteReview r)
  then show ?thesis
    using wf_store_delete_from_reviews [OF assms] by (simp add: snd_delete_review)
qed (use assms in simp_all)

lemma wf_store_reachable: "wf_store (final_store cv reqs empty_store)"
proof -
  have "wf_store s \<Longrightarrow> wf_store (final_store cv reqs s)" for s
    by (induction reqs arbitrary: s) (simp_all add: wf_store_handle)
  then show ?thesis
    using wf_store_empty by blast
qed

section \<open>The claims\<close>

text \<open>
  C1. On a store that satisfies the schema, \<^verbatim>\<open>DELETE /businesses/{b}\<close> answers 404 with
  the business-not-found body exactly when no business row has the id \<open>b\<close>, and then
  changes nothing. Otherwise it answers 204 with an empty body, the reviews left are
  those of the other businesses, and \<^verbatim>\<open>GET /reviews/{r}\<close> answers 404 for every review
  that referenced \<open>b\<close>.
\<close>

theorem delete_business_cascades:
  assumes "wf_store s"
  shows "(status_of (fst (delete_business b s)) = 404 \<longleftrightarrow> select_business b s = []) \<and>
         (select_business b s = [] \<longrightarrow>
            delete_business b s = (Inr (ERROR_BUSINESS_NOT_FOUND, 404), s)) \<and>
         (select_business b s \<noteq> [] \<longrightarrow>
            fst (delete_business b s) = Inr (EmptyBody, 204) \<and>
            reviews (snd (delete_business b s)) =
              filter (\<lambda>row. review_business_id row \<noteq> b) (reviews s) \<and>
            (\<forall>row \<in> set (reviews s). review_business_id row = b \<longrightarrow>
               get_review_by_id (review_id row) (snd (delete_business b s)) =
                 Inr (ERROR_REVIEW_NOT_FOUND, 404)))"
proof (cases "select_business b s = []")
  case True
  then show ?thesis by (simp add: delete_business_absent)
next
  case False
  have ids: "distinct (map review_id (reviews s))"
    using assms by (simp add: wf_store_def)
  have gone: "get_review_by_id (review_id row) (snd (delete_business b s)) =
                Inr (ERROR_REVIEW_NOT_FOUND, 404)"
    if "row \<in> set (reviews s)" "review_business_id row = b" for row
  proof -
    have "select_review (review_id row) (snd (delete_business b s)) = []"
      using that same_key_same_row [OF ids, of _ row]
      by (auto simp: delete_business_present [OF False] select_review_def filter_empty_conv)
    then show ?thesis by (simp add: get_review_by_id_def one_or_none_def)
  qed
  show ?thesis
    using False gone by (simp add: delete_business_present)
qed

theorem delete_business_cascades_witness:
  "wf_store store1 \<and> select_business 1 store1 \<noteq> [] \<and>
   status_of (fst (delete_business 1 store1)) \<noteq> 404 \<and>
   fst (delete_business 1 store1) = Inr (EmptyBody, 204) \<and>
   reviews (snd (delete_business 1 store1)) = [] \<and>
   get_review_by_id 1 (snd (delete_business 1 store1)) = Inr (ERROR_REVIEW_NOT_FOUND, 404) \<and>
   select_business 2 store1 = [] \<and>
   delete_business 2 store1 = (Inr (ERROR_BUSINESS_NOT_FOUND, 404), store1)"
proof -
  have present: "select_business 1 store1 \<noteq> []" and absent: "select_business 2 store1 = []"
    by (simp_all add: select_business_def store1_def)
  have row: "\<lparr>review_id = 1, user_id = 5, review_business_id = 1, stars = 4,
              review_text = ''Good''\<rparr> \<in> set (reviews store1)"
    by (simp add: store1_def)
  have rows: "filter (\<lambda>row. review_business_id row \<noteq> 1) (reviews store1) = []"
    by (simp add: store1_def)
  show ?thesis
    using delete_business_cascades [OF wf_store1, of 1] delete_business_cascades [OF wf_store1, of 2]
      present absent row rows wf_store1
    by fastforce
qed

text \<open>
  C8. \<^verbatim>\<open>DELETE\<close> on the id of a business or of a review that does not exist answers 404
  with a response, not an exception, and changes nothing; after a \<^verbatim>\<open>DELETE\<close> the id
  does not exist. In a sequence of requests none of which is a \<^verbatim>\<open>POST\<close> of the
  resource, at most one \<^verbatim>\<open>DELETE\<close> of the same id is answered with a 2xx status.
\<close>

theorem delete_at_most_once:
  "(select_business b s = [] \<longrightarrow>
      delete_business b s = (Inr (ERROR_BUSINESS_NOT_FOUND, 404), s)) \<and>
   (select_review r s = [] \<longrightarrow>
      delete_review r s = (Inr (ERROR_REVIEW_NOT_FOUND, 404), s)) \<and>
   select_business b (snd (delete_business b s)) = [] \<and>
   select_review r (snd (delete_review r s)) = [] \<and>
   (list_all (\<lambda>q. \<not> creates_business q) reqs \<longrightarrow>
      successes (DeleteBusiness b) (run cv reqs s) \<le> 1) \<and>
   (list_all (\<lambda>q. \<not> creates_review q) reqs \<longrightarrow>
      successes (DeleteReview r) (run cv reqs s) \<le> 1)"
  using delete_business_absent [of b s] delete_review_absent [of r s]
    select_business_after_delete [of b s] select_review_after_delete [of r s]
    business_deleted_once [of reqs b cv s] review_deleted_once [of reqs r cv s]
  by blast

theorem delete_at_most_once_witness:
  "select_business 2 store1 = [] \<and>
   delete_business 2 store1 = (Inr (ERROR_BUSINESS_NOT_FOUND, 404), store1) \<and>
   select_review 2 store1 = [] \<and>
   delete_review 2 store1 = (Inr (ERROR_REVIEW_NOT_FOUND, 404), store1) \<and>
   list_all (\<lambda>q. \<not> creates_business q)
     [DeleteReview 1, DeleteBusiness 1, DeleteReview 1, DeleteBusiness 1] \<and>
   list_all (\<lambda>q. \<not> creates_review q)
     [DeleteReview 1, DeleteBusiness 1, DeleteReview 1, DeleteBusiness 1] \<and>
   successes (DeleteBusiness 1)
     (run no_strings [DeleteReview 1, DeleteBusiness 1, DeleteReview 1, DeleteBusiness 1] store1) \<le> 1 \<and>
   successes (DeleteReview 1)
     (run no_strings [DeleteReview 1, DeleteBusiness 1, DeleteReview 1, DeleteBusiness 1] store1) \<le> 1"
proof -
  have absent: "select_business 2 store1 = []" "select_review 2 store1 = []"
    by (simp_all add: select_business_def select_review_def store1_def)
  have none: "list_all (\<lambda>q. \<not> creates_business q)
                [DeleteReview 1, DeleteBusiness 1, DeleteReview 1, DeleteBusiness 1]"
     "list_all (\<lambda>q. \<not> creates_review q)
                [DeleteReview 1, DeleteBusiness 1, DeleteReview 1, DeleteBusiness 1]"
    by (simp_all add: creates_business_def creates_review_def)
  show ?thesis
    using delete_at_most_once [of 2 store1 2
        "[DeleteReview 1, DeleteBusiness 1, DeleteReview 1, DeleteBusiness 1]" no_strings]
      delete_at_most_once [of 1 store1 1
        "[DeleteReview 1, DeleteBusiness 1, DeleteReview 1, DeleteBusiness 1]" no_strings]
      absent none
    by blast
qed

text \<open>
  C6, amended. When \<^verbatim>\<open>limit\<close> or \<^verbatim>\<open>offset\<close> is absent, \<^verbatim>\<open>GET /businesses\<close> answers as
  for \<^verbatim>\<open>limit=3\<close> and \<^verbatim>\<open>offset=0\<close>. The rows fetched are the first four rows in
  ascending order of \<^verbatim>\<open>business_id\<close>. If \<^verbatim>\<open>int\<close> reads the zip code of each of the first
  three of them, the answer is 200 with these three rows as the entries, in that order,
  and the \<^verbatim>\<open>next\<close> link is there exactly when four rows were fetched, with \<^verbatim>\<open>offset=3\<close>
  and \<^verbatim>\<open>limit=3\<close>.
\<close>

theorem get_businesses_default_page:
  assumes "limit_arg = None \<or> offset_arg = None"
    and "list_all (\<lambda>r. py_int cv (zip_code r) \<noteq> Inl ValueError)
           (take 3 (select_businesses_page (3 + 1) 0 s))"
  shows "get_businesses cv limit_arg offset_arg s = get_businesses cv (Some 3) (Some 0) s \<and>
         select_businesses_page (3 + 1) 0 s = take 4 (sort_key business_id (businesses s)) \<and>
         sorted (map business_id (select_businesses_page (3 + 1) 0 s)) \<and>
         (\<exists>entries.
            get_businesses cv limit_arg offset_arg s =
              Inr (PageBody entries
                     (if 3 < length (select_businesses_page (3 + 1) 0 s)
                      then Some (BusinessesLink (0 + 3) 3) else None), 200) \<and>
            length entries \<le> 3 \<and>
            map bd_id entries =
              map business_id (take 3 (select_businesses_page (3 + 1) 0 s)))"
proof -
  let ?rows = "select_businesses_page 4 0 s"
  have d: "get_businesses cv limit_arg offset_arg s = get_businesses cv (Some 3) (Some 0) s"
    using assms(1) by (rule get_businesses_defaults)
  have p: "?rows = take 4 (sort_key business_id (businesses s))"
    by (simp add: select_businesses_page_def)
  have "sorted (map business_id (sort_key business_id (businesses s)))"
    by simp
  then have so: "sorted (map business_id ?rows)"
    unfolding p by (simp add: take_map [symmetric] sorted_wrt_take del: sorted_sort_key)
  obtain entries where e: "map_rows (row_to_business_dict cv) (take 3 ?rows) = Inr entries"
    using rows_render [of cv "take 3 ?rows"] assms(2) by auto
  have "length entries \<le> 3" and "map bd_id entries = map business_id (take 3 ?rows)"
    using map_rows_length [OF e] map_rows_ids [OF e] by simp_all
  then show ?thesis
    using d p so e by (simp add: get_businesses_first_page)
qed

theorem get_businesses_default_page_witness:
  "list_all (\<lambda>r. py_int no_strings (zip_code r) \<noteq> Inl ValueError)
     (take 3 (select_businesses_page (3 + 1) 0 store4)) \<and>
   get_businesses no_strings None (Some 7) store4 =
     Inr (PageBody
            [\<lparr>bd_id = 1, bd_owner_id = 7, bd_name = ''Cafe'', bd_street_address = ''1 Main St'',
              bd_city = ''Corvallis'', bd_state = ''OR'', bd_zip_code = 97330,
              bd_self = BusinessLink 1\<rparr>,
             \<lparr>bd_id = 2, bd_owner_id = 7, bd_name = ''Cafe'', bd_street_address = ''1 Main St'',
              bd_city = ''Corvallis'', bd_state = ''OR'', bd_zip_code = 97330,
              bd_self = BusinessLink 2\<rparr>,
             \<lparr>bd_id = 3, bd_owner_id = 7, bd_name = ''Cafe'', bd_street_address = ''1 Main St'',
              bd_city = ''Corvallis'', bd_state = ''OR'', bd_zip_code = 97330,
              bd_self = BusinessLink 3\<rparr>]
            (Some (BusinessesLink 3 3)), 200) \<and>
   map business_id (select_businesses_page (3 + 1) 0 store4) = [1, 2, 3, 4]"
proof -
  have z: "py_int no_strings ''97330'' = Inr 97330"
    by (simp add: py_int_defs)
  have rows: "select_businesses_page (3 + 1) 0 store4 = map example_business [1, 2, 3, 4]"
    by (simp add: select_businesses_page_def store4_def example_business_def)
  have zips: "list_all (\<lambda>r. py_int no_strings (zip_code r) \<noteq> Inl ValueError)
                (take 3 (select_businesses_page (3 + 1) 0 store4))"
    unfolding rows by (simp add: example_business_def z)
  have page: "get_businesses no_strings (Some 3) (Some 0) store4 =
     Inr (PageBody
            [\<lparr>bd_id = 1, bd_owner_id = 7, bd_name = ''Cafe'', bd_street_address = ''1 Main St'',
              bd_city = ''Corvallis'', bd_state = ''OR'', bd_zip_code = 97330,
              bd_self = BusinessLink 1\<rparr>,
             \<lparr>bd_id = 2, bd_owner_id = 7, bd_name = ''Cafe'', bd_street_address = ''1 Main St'',
              bd_city = ''Corvallis'', bd_state = ''OR'', bd_zip_code = 97330,
              bd_self = BusinessLink 2\<rparr>,
             \<lparr>bd_id = 3, bd_owner_id = 7, bd_name = ''Cafe'', bd_street_address = ''1 Main St'',
              bd_city = ''Corvallis'', bd_state = ''OR'', bd_zip_code = 97330,
              bd_self = BusinessLink 3\<rparr>]
            (Some (BusinessesLink 3 3)), 200)"
    using rows by (simp add: get_businesses_first_page row_to_business_dict_def z example_business_def)
  show ?thesis
    using get_businesses_default_page [of None "Some 7" no_strings store4, OF _ zips] page rows zips
    by (simp add: example_business_def)
qed

text \<open>
  C6 as it is written holds of every store. \<^verbatim>\<open>zip_code\<close> is a \<^verbatim>\<open>CHAR(5)\<close> column, and
  \<^verbatim>\<open>POST /businesses\<close> stores the text \<^verbatim>\<open>abcde\<close> in it: the row is committed before
  \<^verbatim>\<open>row_to_business_dict\<close> raises on it. On the store with that one row
  \<^verbatim>\<open>GET /businesses\<close> without parameters has no entries and no link to answer with: the
  \<^verbatim>\<open>ValueError\<close> of \<^verbatim>\<open>int\<close> leaves the handler.
\<close>

theorem get_businesses_zip_code_no_numeral:
  "snd (post_business no_strings
          (Parsed [''owner_id'' \<mapsto> JInt 7, ''name'' \<mapsto> JStr ''Cafe'',
                   ''street_address'' \<mapsto> JStr ''1 Main St'', ''city'' \<mapsto> JStr ''Corvallis'',
                   ''state'' \<mapsto> JStr ''OR'', ''zip_code'' \<mapsto> JStr ''abcde''])
          empty_store) =
     \<lparr>businesses =
        [\<lparr>business_id = 1, owner_id = 7, name = ''Cafe'', street_address = ''1 Main St'',
          city = ''Corvallis'', state = ''OR'', zip_code = ''abcde''\<rparr>],
      reviews = [], businesses_auto_increment = 2, reviews_auto_increment = 1\<rparr> \<and>
   get_businesses no_strings None None
     \<lparr>businesses =
        [\<lparr>business_id = 1, owner_id = 7, name = ''Cafe'', street_address = ''1 Main St'',
          city = ''Corvallis'', state = ''OR'', zip_code = ''abcde''\<rparr>],
      reviews = [], businesses_auto_increment = 2, reviews_auto_increment = 1\<rparr> =
     Inl ValueError \<and>
   status_of (Inl ValueError) = 500"
proof -
  have z: "py_int no_strings ''abcde'' = Inl ValueError"
    by (simp add: py_int_defs)
  have "snd (post_business no_strings
          (Parsed [''owner_id'' \<mapsto> JInt 7, ''name'' \<mapsto> JStr ''Cafe'',
                   ''street_address'' \<mapsto> JStr ''1 Main St'', ''city'' \<mapsto> JStr ''Corvallis'',
                   ''state'' \<mapsto> JStr ''OR'', ''zip_code'' \<mapsto> JStr ''abcde''])
          empty_store) =
     \<lparr>businesses =
        [\<lparr>business_id = 1, owner_id = 7, name = ''Cafe'', street_address = ''1 Main St'',
          city = ''Corvallis'', state = ''OR'', zip_code = ''abcde''\<rparr>],
      reviews = [], businesses_auto_increment = 2, reviews_auto_increment = 1\<rparr>"
    by (simp add: post_business_def missing_business_fields post_business_try_def
          insert_business_def business_operands_def business_columns_def bound_def
          and_then_def getitem_def char_column_def rstrip_spaces_def text_value_def int_value_def
          INT_MIN_def INT_MAX_def auto_increment_def one_def select_business_def
          row_to_business_dict_def z empty_store_def)
  moreover have "get_businesses no_strings None None
     \<lparr>businesses =
        [\<lparr>business_id = 1, owner_id = 7, name = ''Cafe'', street_address = ''1 Main St'',
          city = ''Corvallis'', state = ''OR'', zip_code = ''abcde''\<rparr>],
      reviews = [], businesses_auto_increment = 2, reviews_auto_increment = 1\<rparr> =
     Inl ValueError"
    by (simp add: get_businesses_def select_businesses_page_def slice_to_def
          row_to_business_dict_def z)
  ultimately show ?thesis by simp
qed




text \<open>
  C10. For a \<^verbatim>\<open>PUT /reviews/{id}\<close> whose body is absent or does not parse,
  \<^verbatim>\<open>edit_review\<close> takes the empty object and answers 400 with the message of the
  missing attribute, and the store is as before. \<^verbatim>\<open>post_business\<close> and
  \<^verbatim>\<open>edit_business\<close> on such a body raise the exception of \<^verbatim>\<open>request.get_json()\<close>.
\<close>

theorem edit_review_parses_silently:
  assumes "rb = NoJson \<or> rb = Malformed"
  shows "or_empty (get_json_silent rb) = Map.empty \<and>
         edit_review cv r rb s = (Inr (ErrorBody MISSING_ATTRIBUTES, 400), s) \<and>
         post_business cv rb s =
           (Inl (if rb = NoJson then UnsupportedMediaType else BadRequest), s) \<and>
         edit_business cv b rb s =
           (Inl (if rb = NoJson then UnsupportedMediaType else BadRequest), s)"
  using assms
  by (auto simp: or_empty_def edit_review_def post_business_def edit_business_def bad_request_def)

theorem edit_review_parses_silently_witness:
  "edit_review no_strings 1 Malformed store1 = (Inr (ErrorBody MISSING_ATTRIBUTES, 400), store1) \<and>
   edit_review no_strings 1 NoJson store1 = (Inr (ErrorBody MISSING_ATTRIBUTES, 400), store1) \<and>
   post_business no_strings Malformed store1 = (Inl BadRequest, store1) \<and>
   edit_business no_strings 1 NoJson store1 = (Inl UnsupportedMediaType, store1)"
  using edit_review_parses_silently [of Malformed no_strings 1 store1 1]
    edit_review_parses_silently [of NoJson no_strings 1 store1 1]
  by simp

text \<open>
  C4. \<^verbatim>\<open>get_businesses\<close> clamps a negative \<^verbatim>\<open>offset\<close>, and clamps a negative \<^verbatim>\<open>limit\<close>
  only in the number of rows it fetches: the slice of the entries, the test for the
  \<^verbatim>\<open>next\<close> link and the link itself take the \<^verbatim>\<open>limit\<close> as it was sent. On the empty
  store \<^verbatim>\<open>limit=-1&offset=0\<close> is answered with a \<^verbatim>\<open>next\<close> link that carries
  \<^verbatim>\<open>offset=-1\<close> and \<^verbatim>\<open>limit=-1\<close>, and \<^verbatim>\<open>limit=0&offset=0\<close> with no link.
\<close>

theorem get_businesses_negative_limit:
  "get_businesses cv (Some (- 1)) (Some 0) empty_store =
     Inr (PageBody [] (Some (BusinessesLink (- 1) (- 1))), 200) \<and>
   get_businesses cv (Some 0) (Some 0) empty_store = Inr (PageBody [] None, 200) \<and>
   get_businesses cv (Some 3) (Some (- 2)) store4 = get_businesses cv (Some 3) (Some 0) store4"
  by (simp add: get_businesses_def empty_store_def select_businesses_page_def slice_to_def)

text \<open>
  C2, amended. On a store that satisfies the schema, a \<^verbatim>\<open>POST /reviews\<close> whose
  \<^verbatim>\<open>user_id\<close> and \<^verbatim>\<open>business_id\<close> are the integers of an existing review of an
  existing business, whose \<^verbatim>\<open>stars\<close> is an integer from 0 to 5 and whose
  \<^verbatim>\<open>review_text\<close>, when present, is a value that the column accepts, is answered with
  409 and the message that tells the client to update or delete the review; the rows of
  both tables are as before.
\<close>

theorem post_reviews_duplicate:
  assumes "wf_store s"
    and "content ''user_id'' = Some (JInt u)" and "content ''business_id'' = Some (JInt b)"
    and "content ''stars'' = Some (JInt n)" and "0 \<le> n" and "n \<le> 5"
    and "varchar_param cv 1000 ''review_text''
           (get_default content ''review_text'' (JStr [])) = Inr t"
    and "b \<in> set (map business_id (businesses s))"
    and "(u, b) \<in> set (map (\<lambda>r. (user_id r, review_business_id r)) (reviews s))"
  shows "fst (post_reviews cv (Parsed content) s) = Inr (ErrorBody ALREADY_REVIEWED, 409) \<and>
         reviews (snd (post_reviews cv (Parsed content) s)) = reviews s \<and>
         businesses (snd (post_reviews cv (Parsed content) s)) = businesses s"
proof -
  let ?tv = "get_default content ''review_text'' (JStr [])"
  obtain found where found: "select_business_where cv (JInt b) s = Inr [found]"
    using select_business_single [OF assms(1) assms(8)]
    by (auto simp: select_business_where_def bound_def and_then_def)
  obtain old where "old \<in> set (reviews s)" and "user_id old = u" and "review_business_id old = b"
    using assms(9) by auto
  then have "int_ok u" and "int_ok b"
    using wf_store_ints [OF assms(1), of old] by auto
  moreover have ck: "ck_stars n"
    using assms(5,6) by (simp add: ck_stars_def)
  ultimately have cols:
    "and_then (review_operands (JInt u) (JInt b) (JInt n) ?tv)
       (review_columns cv (reviews_auto_increment s)) =
      Inr \<lparr>review_id = reviews_auto_increment s, user_id = u, review_business_id = b,
           stars = n, review_text = t\<rparr>"
    using assms(7) by (simp add: review_insert_accepted ck_stars_int_ok)
  obtain entry key where
    "insert_review cv (JInt u) (JInt b) (JInt n) ?tv s =
       (Inl (duplicate_entry entry key),
        s\<lparr>reviews_auto_increment := auto_increment (reviews_auto_increment s)\<rparr>)"
    using insert_review_duplicate [OF cols] ck assms(9) by auto
  then have "post_reviews cv (Parsed content) s =
      (Inr (bad_request ALREADY_REVIEWED 409),
       s\<lparr>reviews_auto_increment := auto_increment (reviews_auto_increment s)\<rparr>)"
    using post_reviews_insert [OF assms(2,3,4) found] by (simp add: duplicate_entry_is_conflict)
  then show ?thesis
    by (simp add: bad_request_def)
qed

theorem post_reviews_duplicate_witness:
  "wf_store store1 \<and>
   (1::int) \<in> set (map business_id (businesses store1)) \<and>
   (5::int, 1::int) \<in> set (map (\<lambda>r. (user_id r, review_business_id r)) (reviews store1)) \<and>
   fst (post_reviews no_strings
          (Parsed [''user_id'' \<mapsto> JInt 5, ''business_id'' \<mapsto> JInt 1, ''stars'' \<mapsto> JInt 3])
          store1) = Inr (ErrorBody ALREADY_REVIEWED, 409) \<and>
   reviews (snd (post_reviews no_strings
          (Parsed [''user_id'' \<mapsto> JInt 5, ''business_id'' \<mapsto> JInt 1, ''stars'' \<mapsto> JInt 3])
          store1)) = reviews store1"
proof -
  have b: "(1::int) \<in> set (map business_id (businesses store1))"
    and p: "(5::int, 1::int) \<in> set (map (\<lambda>r. (user_id r, review_business_id r)) (reviews store1))"
    by (simp_all add: store1_def)
  have t: "varchar_param no_strings 1000 ''review_text''
             (get_default [''user_id'' \<mapsto> JInt 5, ''business_id'' \<mapsto> JInt 1, ''stars'' \<mapsto> JInt 3]
                ''review_text'' (JStr [])) = Inr []"
    by (simp add: get_default_def varchar_param_JStr)
  show ?thesis
    using post_reviews_duplicate
      [OF wf_store1, of "[''user_id'' \<mapsto> JInt 5, ''business_id'' \<mapsto> JInt 1, ''stars'' \<mapsto> JInt 3]"
         5 1 3 no_strings "[]"] b p t wf_store1
    by simp
qed

text \<open>
  C2 as it is written asks for 409 whatever the values of \<^verbatim>\<open>stars\<close> and
  \<^verbatim>\<open>review_text\<close> are. The store converts the values and checks \<^verbatim>\<open>NOT NULL\<close> and
  \<^verbatim>\<open>ck_stars\<close> before it looks at the keys. A second review of user 5 for business 1
  whose \<^verbatim>\<open>stars\<close> or \<^verbatim>\<open>review_text\<close> is null is rejected for \<^verbatim>\<open>NOT NULL\<close>, and the
  answer is 400; one whose \<^verbatim>\<open>stars\<close> is 9 is rejected for \<^verbatim>\<open>ck_stars\<close>, and the answer
  is 500.
\<close>

theorem post_reviews_duplicate_invalid_values:
  "wf_store store1 \<and>
   select_business 1 store1 \<noteq> [] \<and>
   (5::int, 1::int) \<in> set (map (\<lambda>r. (user_id r, review_business_id r)) (reviews store1)) \<and>
   post_reviews no_strings
     (Parsed [''user_id'' \<mapsto> JInt 5, ''business_id'' \<mapsto> JInt 1, ''stars'' \<mapsto> JNull]) store1 =
     (Inr (ErrorBody ''Invalid review data'', 400), store1) \<and>
   post_reviews no_strings
     (Parsed [''user_id'' \<mapsto> JInt 5, ''business_id'' \<mapsto> JInt 1, ''stars'' \<mapsto> JInt 9]) store1 =
     (Inr (ErrorBody ''Unable to create review'', 500), store1) \<and>
   post_reviews no_strings
     (Parsed [''user_id'' \<mapsto> JInt 5, ''business_id'' \<mapsto> JInt 1, ''stars'' \<mapsto> JInt 3,
              ''review_text'' \<mapsto> JNull]) store1 =
     (Inr (ErrorBody ''Invalid review data'', 400), store1)"
proof -
  have "post_reviews no_strings
     (Parsed [''user_id'' \<mapsto> JInt 5, ''business_id'' \<mapsto> JInt 1, ''stars'' \<mapsto> JNull]) store1 =
     (Inr (ErrorBody ''Invalid review data'', 400), store1)"
    by (simp add: post_reviews_defs cannot_be_null_def store1_def)
  moreover have "post_reviews no_strings
     (Parsed [''user_id'' \<mapsto> JInt 5, ''business_id'' \<mapsto> JInt 1, ''stars'' \<mapsto> JInt 9]) store1 =
     (Inr (ErrorBody ''Unable to create review'', 500), store1)"
    by (simp add: post_reviews_defs store1_def)
  moreover have "post_reviews no_strings
     (Parsed [''user_id'' \<mapsto> JInt 5, ''business_id'' \<mapsto> JInt 1, ''stars'' \<mapsto> JInt 3,
              ''review_text'' \<mapsto> JNull]) store1 =
     (Inr (ErrorBody ''Invalid review data'', 400), store1)"
    by (simp add: post_reviews_defs cannot_be_null_def store1_def)
  moreover have "select_business 1 store1 \<noteq> []"
    and "(5::int, 1::int) \<in> set (map (\<lambda>r. (user_id r, review_business_id r)) (reviews store1))"
    by (simp_all add: select_business_def store1_def)
  ultimately show ?thesis
    using wf_store1 by simp
qed

text \<open>
  C7. On a store that satisfies the schema, take a \<^verbatim>\<open>POST /reviews\<close> whose \<^verbatim>\<open>user_id\<close>
  and \<^verbatim>\<open>stars\<close> are integers of the 32-bit range of an \<^verbatim>\<open>INT\<close> column, whose
  \<^verbatim>\<open>business_id\<close> is the integer id of an existing business, and whose \<^verbatim>\<open>review_text\<close>,
  when present, is a value that the column accepts. \<^verbatim>\<open>ck_stars\<close> holds exactly of 0 to
  5. If \<^verbatim>\<open>stars\<close> is outside 0 to 5, the store rejects the row for \<^verbatim>\<open>ck_stars\<close> with an
  error that is no \<^verbatim>\<open>IntegrityError\<close>: the clause that holds the 400 of the handler is
  not entered, and the answer is the 500 of \<^verbatim>\<open>except Exception\<close>, with the store as
  before. If \<^verbatim>\<open>stars\<close> is from 0 to 5, the pair of user and business has no review yet
  and the next id is free, the answer is 201 with the new review, which is the one row
  added.
\<close>

theorem post_reviews_checks_stars:
  assumes "wf_store s"
    and "content ''user_id'' = Some (JInt u)" and "int_ok u"
    and "content ''business_id'' = Some (JInt b)"
    and "b \<in> set (map business_id (businesses s))"
    and "content ''stars'' = Some (JInt n)" and "int_ok n"
    and "varchar_param cv 1000 ''review_text''
           (get_default content ''review_text'' (JStr [])) = Inr t"
  shows "(ck_stars n \<longleftrightarrow> 0 \<le> n \<and> n \<le> 5) \<and>
         (\<not> ck_stars n \<longrightarrow>
            post_reviews cv (Parsed content) s =
              (Inr (ErrorBody ''Unable to create review'', 500), s)) \<and>
         (ck_stars n \<and>
          (u, b) \<notin> set (map (\<lambda>r. (user_id r, review_business_id r)) (reviews s)) \<and>
          reviews_auto_increment s \<notin> set (map review_id (reviews s)) \<longrightarrow>
            post_reviews cv (Parsed content) s =
              (Inr (ReviewBody
                      \<lparr>rd_id = reviews_auto_increment s, rd_user_id = u,
                       rd_business = BusinessLink b, rd_stars = n, rd_review_text = t,
                       rd_self = ReviewLink (reviews_auto_increment s)\<rparr>, 201),
               s\<lparr>reviews_auto_increment := auto_increment (reviews_auto_increment s),
                 reviews := reviews s @
                   [\<lparr>review_id = reviews_auto_increment s, user_id = u,
                     review_business_id = b, stars = n, review_text = t\<rparr>]\<rparr>))"
proof -
  let ?tv = "get_default content ''review_text'' (JStr [])"
  let ?row = "\<lparr>review_id = reviews_auto_increment s, user_id = u, review_business_id = b,
               stars = n, review_text = t\<rparr>"
  obtain found where sel: "select_business b s = [found]"
    using select_business_single [OF assms(1) assms(5)] by auto
  then have found: "select_business_where cv (JInt b) s = Inr [found]"
    by (simp add: select_business_where_def bound_def and_then_def)
  have "found \<in> set (businesses s)" and "business_id found = b"
    using sel filter_eq_ConsD [of "\<lambda>r. business_id r = b" "businesses s" found "[]"]
    by (auto simp: select_business_def)
  then have "int_ok b"
    using assms(1) by (auto simp: wf_store_def list_all_iff)
  then have cols:
    "and_then (review_operands (JInt u) (JInt b) (JInt n) ?tv)
       (review_columns cv (reviews_auto_increment s)) = Inr ?row"
    using assms(3,7,8) by (simp add: review_insert_accepted)
  note post = post_reviews_insert [OF assms(2,4,6) found]
  have rejected: "post_reviews cv (Parsed content) s =
      (Inr (ErrorBody ''Unable to create review'', 500), s)" if "\<not> ck_stars n"
    using post insert_review_check [OF cols] that
    by (simp add: ck_stars_is_unexpected)
  have accepted: "post_reviews cv (Parsed content) s =
      (Inr (ReviewBody (row_to_review_dict ?row), 201),
       s\<lparr>reviews_auto_increment := auto_increment (reviews_auto_increment s),
         reviews := reviews s @ [?row]\<rparr>)"
    if "ck_stars n"
      and "(u, b) \<notin> set (map (\<lambda>r. (user_id r, review_business_id r)) (reviews s))"
      and "reviews_auto_increment s \<notin> set (map review_id (reviews s))"
  proof -
    have ins: "insert_review cv (JInt u) (JInt b) (JInt n) ?tv s =
        (Inr (reviews_auto_increment s),
         s\<lparr>reviews_auto_increment := auto_increment (reviews_auto_increment s),
           reviews := reviews s @ [?row]\<rparr>)"
      using insert_review_accepted [OF cols] that assms(5) by simp
    have "filter (\<lambda>row. review_id row = reviews_auto_increment s) (reviews s) = []"
      using that(3) by (auto simp: filter_empty_conv image_iff)
    then have "one (select_review (reviews_auto_increment s)
        (s\<lparr>reviews_auto_increment := auto_increment (reviews_auto_increment s),
           reviews := reviews s @ [?row]\<rparr>)) = Inr ?row"
      by (simp add: select_review_def one_def)
    then show ?thesis
      using post ins by simp
  qed
  show ?thesis
    using rejected accepted by (simp add: ck_stars_def row_to_review_dict_def)
qed

theorem post_reviews_checks_stars_witness:
  "wf_store store1 \<and> int_ok 6 \<and> int_ok 9 \<and> int_ok (- 1) \<and> int_ok 0 \<and>
   \<not> ck_stars 9 \<and> \<not> ck_stars (- 1) \<and> ck_stars 0 \<and>
   (1::int) \<in> set (map business_id (businesses store1)) \<and>
   post_reviews no_strings
     (Parsed [''user_id'' \<mapsto> JInt 6, ''business_id'' \<mapsto> JInt 1, ''stars'' \<mapsto> JInt 9]) store1 =
     (Inr (ErrorBody ''Unable to create review'', 500), store1) \<and>
   post_reviews no_strings
     (Parsed [''user_id'' \<mapsto> JInt 6, ''business_id'' \<mapsto> JInt 1, ''stars'' \<mapsto> JInt (- 1)]) store1 =
     (Inr (ErrorBody ''Unable to create review'', 500), store1) \<and>
   fst (post_reviews no_strings
     (Parsed [''user_id'' \<mapsto> JInt 6, ''business_id'' \<mapsto> JInt 1, ''stars'' \<mapsto> JInt 0]) store1) =
     Inr (ReviewBody
            \<lparr>rd_id = 2, rd_user_id = 6, rd_business = BusinessLink 1, rd_stars = 0,
             rd_review_text = [], rd_self = ReviewLink 2\<rparr>, 201)"
proof -
  have i: "int_ok 6" "int_ok 9" "int_ok (- 1)" "int_ok 0"
    by (simp_all add: int_ok_def INT_MIN_def INT_MAX_def)
  have b: "(1::int) \<in> set (map business_id (businesses store1))"
    and p: "(6::int, 1::int) \<notin> set (map (\<lambda>r. (user_id r, review_business_id r)) (reviews store1))"
    and f: "reviews_auto_increment store1 \<notin> set (map review_id (reviews store1))"
    and c: "reviews_auto_increment store1 = 2"
    by (simp_all add: store1_def)
  have t: "varchar_param no_strings 1000 ''review_text''
             (get_default m ''review_text'' (JStr [])) = Inr []"
    if "m ''review_text'' = None" for m
    using that by (simp add: get_default_def varchar_param_JStr)
  show ?thesis
    using post_reviews_checks_stars
      [OF wf_store1, of "[''user_id'' \<mapsto> JInt 6, ''business_id'' \<mapsto> JInt 1, ''stars'' \<mapsto> JInt 9]"
         6 1 9 no_strings "[]"]
      post_reviews_checks_stars
      [OF wf_store1,
         of "[''user_id'' \<mapsto> JInt 6, ''business_id'' \<mapsto> JInt 1, ''stars'' \<mapsto> JInt (- 1)]"
         6 1 "- 1" no_strings "[]"]
      post_reviews_checks_stars
      [OF wf_store1, of "[''user_id'' \<mapsto> JInt 6, ''business_id'' \<mapsto> JInt 1, ''stars'' \<mapsto> JInt 0]"
         6 1 0 no_strings "[]"]
      i b p f c t wf_store1
    by (simp add: ck_stars_def)
qed

text \<open>
  C5, amended. On a store that satisfies the schema, take an existing review \<open>r\<close> and a
  \<^verbatim>\<open>PUT /reviews/{r}\<close> whose \<^verbatim>\<open>stars\<close> is an integer from 0 to 5. If the body has no
  \<^verbatim>\<open>review_text\<close>, the answer is 200 with the review, and afterwards the row of \<open>r\<close> is
  the row before with \<^verbatim>\<open>stars\<close> replaced: its text, user and business are as before. If
  the body has a \<^verbatim>\<open>review_text\<close> that the column accepts, \<^verbatim>\<open>stars\<close> and \<^verbatim>\<open>review_text\<close>
  are replaced and nothing else. In both cases the other reviews and the businesses are
  as before.
\<close>

theorem edit_review_overwrites:
  assumes "wf_store s" and "row \<in> set (reviews s)" and "review_id row = r"
    and "content ''stars'' = Some (JInt n)" and "0 \<le> n" and "n \<le> 5"
    and "content ''review_text'' = None \<and> row' = row\<lparr>stars := n\<rparr> \<or>
         (\<exists>tv t. content ''review_text'' = Some tv \<and>
                 varchar_param cv 1000 ''review_text'' tv = Inr t \<and>
                 row' = row\<lparr>stars := n, review_text := t\<rparr>)"
  shows "fst (edit_review cv r (Parsed content) s) =
           Inr (ReviewBody (row_to_review_dict row'), 200) \<and>
         select_review r (snd (edit_review cv r (Parsed content) s)) = [row'] \<and>
         user_id row' = user_id row \<and> review_business_id row' = review_business_id row \<and>
         review_id row' = r \<and> stars row' = n \<and>
         (content ''review_text'' = None \<longrightarrow> review_text row' = review_text row) \<and>
         filter (\<lambda>x. review_id x \<noteq> r) (reviews (snd (edit_review cv r (Parsed content) s))) =
           filter (\<lambda>x. review_id x \<noteq> r) (reviews s) \<and>
         businesses (snd (edit_review cv r (Parsed content) s)) = businesses s"
proof -
  have sel: "select_review r s = [row]"
    using select_review_single [OF assms(1,2)] assms(3) by simp
  have ck: "ck_stars n"
    using assms(5,6) by (simp add: ck_stars_def)
  then have col: "int_column cv ''stars'' (SInt n) = Inr n"
    by (simp add: int_value_ok ck_stars_int_ok)
  note edit = edit_review_update [where content = content and cv = cv, OF assms(4) sel]
  from assms(7) show ?thesis
  proof (elim disjE conjE exE)
    assume none: "content ''review_text'' = None" and r': "row' = row\<lparr>stars := n\<rparr>"
    let ?s' = "s\<lparr>reviews := map (\<lambda>x. if review_id x = r then x\<lparr>stars := n\<rparr> else x) (reviews s)\<rparr>"
    have upd: "update_review_stars cv (JInt n) r s = Inr ?s'"
      using sel ck col by (simp add: update_review_stars_def bound_def and_then_def)
    have sel': "select_review r ?s' = [row\<lparr>stars := n\<rparr>]"
      using select_review_after_update [OF sel, of "\<lambda>x. x\<lparr>stars := n\<rparr>"] by simp
    have "edit_review cv r (Parsed content) s =
            (Inr (ReviewBody (row_to_review_dict (row\<lparr>stars := n\<rparr>)), 200), ?s')"
      using edit none upd sel' by (simp add: one_def)
    then show ?thesis
      using r' sel' none assms(3) by (simp add: others_after_update)
  next
    fix tv t
    assume some: "content ''review_text'' = Some tv"
      and accepted: "varchar_param cv 1000 ''review_text'' tv = Inr t"
      and r': "row' = row\<lparr>stars := n, review_text := t\<rparr>"
    let ?s' = "s\<lparr>reviews :=
      map (\<lambda>x. if review_id x = r then x\<lparr>stars := n, review_text := t\<rparr> else x) (reviews s)\<rparr>"
    obtain y where y: "bound tv = Inr y" "varchar_column cv 1000 ''review_text'' y = Inr t"
      using and_then_Inr [of "bound tv" "varchar_column cv 1000 ''review_text''" t] accepted
      by (auto simp: varchar_param_def)
    have upd: "update_review_stars_text cv (JInt n) tv r s = Inr ?s'"
      using sel ck col y
      by (simp add: update_review_stars_text_def and_then_def bound_def)
    have sel': "select_review r ?s' = [row\<lparr>stars := n, review_text := t\<rparr>]"
      using select_review_after_update [OF sel, of "\<lambda>x. x\<lparr>stars := n, review_text := t\<rparr>"]
      by simp
    have "edit_review cv r (Parsed content) s =
            (Inr (ReviewBody (row_to_review_dict (row\<lparr>stars := n, review_text := t\<rparr>)), 200), ?s')"
      using edit some upd sel' by (simp add: one_def)
    then show ?thesis
      using r' sel' some assms(3) by (simp add: others_after_update)
  qed
qed

theorem edit_review_overwrites_witness:
  "wf_store store1 \<and>
   \<lparr>review_id = 1, user_id = 5, review_business_id = 1, stars = 4, review_text = ''Good''\<rparr>
     \<in> set (reviews store1) \<and>
   fst (edit_review no_strings 1 (Parsed [''stars'' \<mapsto> JInt 2]) store1) =
     Inr (ReviewBody
            \<lparr>rd_id = 1, rd_user_id = 5, rd_business = BusinessLink 1, rd_stars = 2,
             rd_review_text = ''Good'', rd_self = ReviewLink 1\<rparr>, 200) \<and>
   select_review 1 (snd (edit_review no_strings 1 (Parsed [''stars'' \<mapsto> JInt 2]) store1)) =
     [\<lparr>review_id = 1, user_id = 5, review_business_id = 1, stars = 2, review_text = ''Good''\<rparr>] \<and>
   varchar_param no_strings 1000 ''review_text'' (JStr ''Fine'') = Inr ''Fine'' \<and>
   select_review 1
     (snd (edit_review no_strings 1
        (Parsed [''stars'' \<mapsto> JInt 0, ''review_text'' \<mapsto> JStr ''Fine'']) store1)) =
     [\<lparr>review_id = 1, user_id = 5, review_business_id = 1, stars = 0, review_text = ''Fine''\<rparr>]"
proof -
  let ?row = "\<lparr>review_id = 1, user_id = 5, review_business_id = 1, stars = 4,
               review_text = ''Good''\<rparr>"
  have row: "?row \<in> set (reviews store1)"
    by (simp add: store1_def)
  have accepted: "varchar_param no_strings 1000 ''review_text'' (JStr ''Fine'') = Inr ''Fine''"
    by (simp add: varchar_param_JStr)
  have one: "fst (edit_review no_strings 1 (Parsed [''stars'' \<mapsto> JInt 2]) store1) =
      Inr (ReviewBody (row_to_review_dict (?row\<lparr>stars := 2\<rparr>)), 200) \<and>
     select_review 1 (snd (edit_review no_strings 1 (Parsed [''stars'' \<mapsto> JInt 2]) store1)) =
       [?row\<lparr>stars := 2\<rparr>]"
    using edit_review_overwrites
      [OF wf_store1 row, of 1 "[''stars'' \<mapsto> JInt 2]" 2 "?row\<lparr>stars := 2\<rparr>" no_strings]
    by simp
  have two: "select_review 1
     (snd (edit_review no_strings 1
        (Parsed [''stars'' \<mapsto> JInt 0, ''review_text'' \<mapsto> JStr ''Fine'']) store1)) =
     [?row\<lparr>stars := 0, review_text := ''Fine''\<rparr>]"
    using edit_review_overwrites
      [OF wf_store1 row, of 1 "[''stars'' \<mapsto> JInt 0, ''review_text'' \<mapsto> JStr ''Fine'']" 0
         "?row\<lparr>stars := 0, review_text := ''Fine''\<rparr>" no_strings] accepted
    by simp
  show ?thesis
    using one two row accepted wf_store1 by (simp add: row_to_review_dict_def)
qed

text \<open>
  C5 as it is written asks for 200 whatever the values of \<^verbatim>\<open>stars\<close> and \<^verbatim>\<open>review_text\<close>
  are. With \<^verbatim>\<open>stars\<close> or \<^verbatim>\<open>review_text\<close> null the update of the existing review 1
  violates \<^verbatim>\<open>NOT NULL\<close>, and the answer is 400. With \<^verbatim>\<open>stars = 9\<close> it violates
  \<^verbatim>\<open>ck_stars\<close>, and the error of the store, which is no \<^verbatim>\<open>IntegrityError\<close>, leaves the
  handler: the status is 500. The store is as before in each case.
\<close>

theorem edit_review_invalid_values:
  "select_review 1 store1 \<noteq> [] \<and>
   edit_review no_strings 1 (Parsed [''stars'' \<mapsto> JNull]) store1 =
     (Inr (ErrorBody ''Invalid review data'', 400), store1) \<and>
   edit_review no_strings 1 (Parsed [''stars'' \<mapsto> JInt 9]) store1 =
     (Inl (ExecuteError ck_stars_violated), store1) \<and>
   status_of (Inl (ExecuteError ck_stars_violated)) = 500 \<and>
   edit_review no_strings 1 (Parsed [''stars'' \<mapsto> JInt 3, ''review_text'' \<mapsto> JNull]) store1 =
     (Inr (ErrorBody ''Invalid review data'', 400), store1)"
proof -
  have "edit_review no_strings 1 (Parsed [''stars'' \<mapsto> JNull]) store1 =
     (Inr (ErrorBody ''Invalid review data'', 400), store1)"
    by (simp add: edit_review_defs cannot_be_null_def store1_def)
  moreover have "edit_review no_strings 1 (Parsed [''stars'' \<mapsto> JInt 9]) store1 =
     (Inl (ExecuteError ck_stars_violated), store1)"
    by (simp add: edit_review_defs store1_def)
  moreover have
    "edit_review no_strings 1 (Parsed [''stars'' \<mapsto> JInt 3, ''review_text'' \<mapsto> JNull]) store1 =
     (Inr (ErrorBody ''Invalid review data'', 400), store1)"
    by (simp add: edit_review_defs cannot_be_null_def store1_def)
  moreover have "select_review 1 store1 \<noteq> []"
    by (simp add: select_review_def store1_def)
  ultimately show ?thesis by simp
qed




end
